theory Spec2Isabelle
  imports Complex_Main "HOL-Library.Char_ord" "HOL-Library.List_Lexorder" "HOL-Library.Multiset"
    "HOL-Library.Log_Nat"
begin

section \<open>Strings and numbers of the host language\<close>

text \<open>
  The dashboard works on JavaScript strings and numbers. Strings are character lists;
  numbers are integers here (quantities, Naira prices and their sums), and the decimal
  rendering \<open>String(n)\<close> is written out.
\<close>

definition isDigit :: "char \<Rightarrow> bool" where
  \<comment> \<open>the regular-expression class \<open>\d\<close>\<close>
  "isDigit c = (c \<in> set ''0123456789'')"

definition digitChar :: "nat \<Rightarrow> char" where
  "digitChar n = ''0123456789'' ! (n mod 10)"

fun showNat :: "nat \<Rightarrow> string" where
  "showNat n = (if n < 10 then [digitChar n] else showNat (n div 10) @ [digitChar (n mod 10)])"

declare showNat.simps [simp del]

definition showInt :: "int \<Rightarrow> string" where
  \<comment> \<open>\<open>String(n)\<close> for an integral number\<close>
  "showInt i = (if i < 0 then CHR ''-'' # showNat (nat (- i)) else showNat (nat i))"

definition padStart2 :: "string \<Rightarrow> string" where
  \<comment> \<open>\<open>s.padStart(2, '0')\<close>\<close>
  "padStart2 s = replicate (2 - length s) CHR ''0'' @ s"

fun splitOn :: "char \<Rightarrow> string \<Rightarrow> string list" where
  \<comment> \<open>\<open>s.split(c)\<close> for a one-character separator: never an empty array\<close>
  "splitOn c [] = [[]]"
| "splitOn c (x # xs) =
     (if x = c then [] # splitOn c xs
      else (case splitOn c xs of [] \<Rightarrow> [[x]] | p # ps \<Rightarrow> (x # p) # ps))"

definition nthOpt :: "'a list \<Rightarrow> nat \<Rightarrow> 'a option" where
  \<comment> \<open>array indexing and destructuring: \<open>undefined\<close> past the end\<close>
  "nthOpt xs i = (if i < length xs then Some (xs ! i) else None)"

definition truthy :: "string option \<Rightarrow> bool" where
  \<comment> \<open>a string-or-undefined value is falsy when it is undefined or empty\<close>
  "truthy v = (case v of None \<Rightarrow> False | Some s \<Rightarrow> s \<noteq> [])"

definition orEmpty :: "string option \<Rightarrow> string" where
  \<comment> \<open>\<open>v || ''\<close>\<close>
  "orEmpty v = (case v of None \<Rightarrow> [] | Some s \<Rightarrow> s)"

section \<open>Sale records\<close>

text \<open>
  What a \<open>Date\<close> object reports in the viewer's local calendar: \<open>getFullYear()\<close>,
  \<open>getMonth()\<close> (0 to 11) and \<open>getDate()\<close>. The conversion of an instant to the
  local calendar is the platform's.
\<close>

record localDate =
  getFullYear :: int
  getMonth :: nat
  getDate :: nat

record Sale =
  id_sale :: string
  userId :: string
  userEmail :: "string option"
  product :: string
  flavor :: string
  unit :: int
  price :: int
  total :: int
  paymentMode :: "string option"
  date :: "string option"
  time :: "string option"
  createdAt :: "localDate option"

section \<open>Date extraction\<close>

fun isPlainDate :: "string \<Rightarrow> bool" where
  \<comment> \<open>\<open>/^\d{4}-\d{2}-\d{2}$/.test(s)\<close>\<close>
  "isPlainDate [y1, y2, y3, y4, d1, m1, m2, d2, a1, a2] =
     (isDigit y1 \<and> isDigit y2 \<and> isDigit y3 \<and> isDigit y4 \<and> d1 = CHR ''-'' \<and>
      isDigit m1 \<and> isDigit m2 \<and> d2 = CHR ''-'' \<and> isDigit a1 \<and> isDigit a2)"
| "isPlainDate _ = False"

definition formatLocalDate :: "localDate \<Rightarrow> string" where
  \<comment> \<open>the template \<open>y-m-dy\<close> with month and day padded to two characters\<close>
  "formatLocalDate d =
     showInt (getFullYear d) @ ''-'' @ padStart2 (showNat (getMonth d + 1)) @ ''-'' @
     padStart2 (showNat (getDate d))"

definition extractDateOnly :: "Sale \<Rightarrow> string" where
  "extractDateOnly s =
     (let dateStr = orEmpty (date s) in
      if dateStr \<noteq> [] \<and> isPlainDate dateStr then dateStr
      else if dateStr \<noteq> [] \<and> CHR ''T'' \<in> set dateStr then hd (splitOn CHR ''T'' dateStr)
      else if dateStr = [] then
        (case createdAt s of Some d \<Rightarrow> formatLocalDate d | None \<Rightarrow> [])
      else [])"

section \<open>KPI roll-up\<close>

text \<open>
  The date cursor is three pieces of component state, each the value of a selector: the
  year selector offers the decimal renderings of years, the month selector the values of
  \<open>monthOptions\<close>, the day selector those of \<open>dayOptions\<close>.
\<close>

record cursor =
  selectedYear :: string
  selectedMonth :: string
  selectedDay :: string

definition selectedDateStr :: "'a cursor_scheme \<Rightarrow> string" where
  "selectedDateStr c = selectedYear c @ ''-'' @ selectedMonth c @ ''-'' @ selectedDay c"

record kpis =
  dayTotal :: int
  dayCount :: nat
  monthTotal :: int
  monthCount :: nat
  yearTotal :: int
  yearCount :: nat

definition kpiZero :: kpis where
  "kpiZero = \<lparr>dayTotal = 0, dayCount = 0, monthTotal = 0, monthCount = 0,
              yearTotal = 0, yearCount = 0\<rparr>"

definition kpiStep :: "'a cursor_scheme \<Rightarrow> kpis \<Rightarrow> Sale \<Rightarrow> kpis" where
  \<comment> \<open>one iteration of the loop over the dataset\<close>
  "kpiStep c k s =
     (let dateStr = extractDateOnly s in
      if dateStr = [] then k
      else
        let t = total s;
            parts = splitOn CHR ''-'' dateStr;
            recordYear = nthOpt parts 0;
            recordMonth = nthOpt parts 1;
            recordDay = nthOpt parts 2
        in
        if recordYear = Some (selectedYear c) then
          (let k1 = k\<lparr>yearTotal := yearTotal k + t, yearCount := yearCount k + 1\<rparr> in
           if recordMonth = Some (selectedMonth c) then
             (let k2 = k1\<lparr>monthTotal := monthTotal k1 + t, monthCount := monthCount k1 + 1\<rparr> in
              if recordDay = Some (selectedDay c) then
                k2\<lparr>dayTotal := dayTotal k2 + t, dayCount := dayCount k2 + 1\<rparr>
              else k2)
           else k1)
        else k)"

definition computeKpis :: "'a cursor_scheme \<Rightarrow> Sale list \<Rightarrow> kpis" where
  "computeKpis c dataset = foldl (kpiStep c) kpiZero dataset"

text \<open>The three buckets, as the conditions a record passes on its way through the loop.\<close>

definition countedYear :: "'a cursor_scheme \<Rightarrow> Sale \<Rightarrow> bool" where
  "countedYear c s =
     (extractDateOnly s \<noteq> [] \<and>
      nthOpt (splitOn CHR ''-'' (extractDateOnly s)) 0 = Some (selectedYear c))"

definition countedMonth :: "'a cursor_scheme \<Rightarrow> Sale \<Rightarrow> bool" where
  "countedMonth c s =
     (countedYear c s \<and>
      nthOpt (splitOn CHR ''-'' (extractDateOnly s)) 1 = Some (selectedMonth c))"

definition countedDay :: "'a cursor_scheme \<Rightarrow> Sale \<Rightarrow> bool" where
  "countedDay c s =
     (countedMonth c s \<and>
      nthOpt (splitOn CHR ''-'' (extractDateOnly s)) 2 = Some (selectedDay c))"

section \<open>Selector options\<close>

definition monthOptions :: "(string \<times> string) list" where
  \<comment> \<open>pairs of \<open>value\<close> and \<open>label\<close>\<close>
  "monthOptions =
     [(''01'', ''January''), (''02'', ''February''), (''03'', ''March''), (''04'', ''April''),
      (''05'', ''May''), (''06'', ''June''), (''07'', ''July''), (''08'', ''August''),
      (''09'', ''September''), (''10'', ''October''), (''11'', ''November''),
      (''12'', ''December'')]"

definition getMonthName :: "string \<Rightarrow> string" where
  "getMonthName monthNum =
     (case find (\<lambda>m. fst m = monthNum) monthOptions of Some m \<Rightarrow> snd m | None \<Rightarrow> monthNum)"

definition dayOptions :: "(string \<times> string) list" where
  "dayOptions = map (\<lambda>d. (padStart2 (showNat d), showNat d)) [1..<32]"

section \<open>Trend series\<close>

definition getOrZero :: "int option \<Rightarrow> int" where
  \<comment> \<open>\<open>totals.get(key) || 0\<close>\<close>
  "getOrZero v = (case v of None \<Rightarrow> 0 | Some n \<Rightarrow> n)"

definition recordKey :: "Sale \<Rightarrow> string option" where
  \<comment> \<open>the bucket key of a record, \<open>None\<close> where the loop skips the record\<close>
  "recordKey s =
     (let dateStr = extractDateOnly s in
      if dateStr = [] then None
      else
        let parts = splitOn CHR ''-'' dateStr;
            year = nthOpt parts 0;
            month = nthOpt parts 1
        in
        if \<not> truthy year \<or> \<not> truthy month then None
        else Some (orEmpty year @ ''-'' @ orEmpty month))"

definition totalsStep :: "(string \<rightharpoonup> int) \<Rightarrow> Sale \<Rightarrow> (string \<rightharpoonup> int)" where
  "totalsStep totals s =
     (case recordKey s of
        None \<Rightarrow> totals
      | Some k \<Rightarrow> (let amount = total s in totals(k \<mapsto> getOrZero (totals k) + amount)))"

definition newDateFirst :: "int \<Rightarrow> int \<Rightarrow> localDate" where
  \<comment> \<open>\<open>new Date(y, m, 1)\<close>: a month outside 0 to 11 carries into the year, and a
      year from 0 to 99 counts from 1900\<close>
  "newDateFirst y m =
     (let yr = (if 0 \<le> y \<and> y \<le> 99 then 1900 + y else y)
      in \<lparr>getFullYear = yr + m div 12, getMonth = nat (m mod 12), getDate = 1\<rparr>)"

definition monthsToShow :: nat where
  "monthsToShow = 6"

record seriesPoint =
  key :: string
  label :: string
  value_pt :: int
  isCurrent :: bool

definition seriesEntry :: "(string \<rightharpoonup> int) \<Rightarrow> localDate \<Rightarrow> nat \<Rightarrow> seriesPoint" where
  \<comment> \<open>the body of the loop over \<open>i\<close>\<close>
  "seriesEntry totals start i =
     (let current = newDateFirst (getFullYear start) (int (getMonth start) + int i);
          year = getFullYear current;
          monthNumber = padStart2 (showNat (getMonth current + 1));
          k = showInt year @ ''-'' @ monthNumber;
          l = take 3 (getMonthName monthNumber) @ '' '' @ drop 2 (showInt year)
      in \<lparr>key = k, label = l, value_pt = getOrZero (totals k),
          isCurrent = (i = monthsToShow - 1)\<rparr>)"

definition monthlySeries :: "localDate \<Rightarrow> Sale list \<Rightarrow> seriesPoint list" where
  \<comment> \<open>\<open>now\<close> is the wall clock read when the component renders\<close>
  "monthlySeries now dataset =
     (let totals = foldl totalsStep Map.empty dataset;
          refDate = newDateFirst (getFullYear now) (int (getMonth now));
          start = newDateFirst (getFullYear refDate)
                    (int (getMonth refDate) - (int monthsToShow - 1))
      in map (seriesEntry totals start) [0..<monthsToShow])"

text \<open>
  For stating what the series is: the three-letter month names, and the year and month
  (from 0) of a count of months.
\<close>

definition monthAbbrevs :: "string list" where
  "monthAbbrevs = [''Jan'', ''Feb'', ''Mar'', ''Apr'', ''May'', ''Jun'', ''Jul'', ''Aug'', ''Sep'',
                   ''Oct'', ''Nov'', ''Dec'']"

definition yearOfCount :: "int \<Rightarrow> int" where
  "yearOfCount n = n div 12"

definition monthOfCount :: "int \<Rightarrow> nat" where
  "monthOfCount n = nat (n mod 12)"

definition monthCountOf :: "localDate \<Rightarrow> int" where
  "monthCountOf d = 12 * getFullYear d + int (getMonth d)"

section \<open>Double-precision arithmetic\<close>

text \<open>
  The chart computes with the host language's numbers, IEEE 754 doubles. A finite double
  is the rational it denotes; an operation returns the double nearest to the exact result,
  the one with the even significand when two are equally near. The significand has 53
  bits. The exponent range is not modelled: the results here lie between \<open>2^-1022\<close>
  and \<open>2^1024\<close> in magnitude whenever the operands are integers of magnitude at most
  \<open>2^53\<close>, the integers that doubles hold exactly.
\<close>

definition roundHalfEven :: "rat \<Rightarrow> int" where
  "roundHalfEven y =
     (let f = \<lfloor>y\<rfloor>; r = y - of_int f
      in if r < 1 / 2 then f else if 1 / 2 < r then f + 1 else if even f then f else f + 1)"

definition log2floor :: "rat \<Rightarrow> int" where
  \<comment> \<open>for \<open>x > 0\<close>, the \<open>k\<close> with \<open>2^k \<le> x < 2^(k+1)\<close>\<close>
  "log2floor x =
     (let (a, b) = quotient_of x; k = bitlen a - bitlen b
      in if 2 powi k \<le> x then k else k - 1)"

definition roundDouble :: "rat \<Rightarrow> rat" where
  "roundDouble x =
     (if x = 0 then 0
      else
        let e = log2floor \<bar>x\<bar> - 52;
            m = roundHalfEven (\<bar>x\<bar> / 2 powi e)
        in sgn x * of_int m * 2 powi e)"

definition fsub :: "rat \<Rightarrow> rat \<Rightarrow> rat" where
  \<comment> \<open>\<open>a - b\<close>\<close>
  "fsub a b = roundDouble (a - b)"

definition fdiv :: "rat \<Rightarrow> rat \<Rightarrow> rat" where
  \<comment> \<open>\<open>a / b\<close> for \<open>b \<noteq> 0\<close>\<close>
  "fdiv a b = roundDouble (a / b)"

definition fmul :: "rat \<Rightarrow> rat \<Rightarrow> rat" where
  \<comment> \<open>\<open>a * b\<close>\<close>
  "fmul a b = roundDouble (a * b)"

definition safeInteger :: "int \<Rightarrow> bool" where
  \<comment> \<open>an integer of magnitude at most \<open>2^53\<close>\<close>
  "safeInteger n = (\<bar>n\<bar> \<le> 9007199254740992)"

section \<open>Month-over-month delta\<close>

text \<open>
  The copy starts with one of three glyphs outside ASCII (an up triangle, a down triangle,
  a dash); the glyph is a constructor and the text after it a string. The two totals are
  integers that doubles hold exactly.
\<close>

datatype marker = Up | Down | Dash

definition toFixed1 :: "rat \<Rightarrow> string" where
  \<comment> \<open>\<open>x.toFixed(1)\<close> for a double \<open>x\<close> with \<open>0 \<le> x < 10^21\<close>: the number of tenths
      nearest to the value of the double, the larger of two equally near\<close>
  "toFixed1 x = (let n = nat \<lfloor>x * 10 + 1 / 2\<rfloor> in showNat (n div 10) @ ''.'' @ showNat (n mod 10))"

definition deltaCopy :: "int \<Rightarrow> int \<Rightarrow> marker \<times> string" where
  \<comment> \<open>arguments in the order of the component's properties: current, previous\<close>
  "deltaCopy currentMonthTotal previousMonthTotal =
     (let delta = fsub (rat_of_int currentMonthTotal) (rat_of_int previousMonthTotal);
          deltaPositive = (delta \<ge> 0)
      in
      if previousMonthTotal = 0 \<and> currentMonthTotal > 0 then (Up, '' New vs last month'')
      else if previousMonthTotal = 0 \<and> currentMonthTotal = 0 then (Dash, '' vs last month'')
      else if previousMonthTotal > 0 then
        (let deltaPercent = fmul (fdiv delta (rat_of_int previousMonthTotal)) 100
         in (if deltaPositive then Up else Down,
             '' '' @ toFixed1 \<bar>deltaPercent\<bar> @ ''% vs last month''))
      else (Dash, '' vs last month''))"

section \<open>Filtered listing and pagination\<close>

fun insertBy :: "('a \<Rightarrow> 'a \<Rightarrow> int) \<Rightarrow> 'a \<Rightarrow> 'a list \<Rightarrow> 'a list" where
  "insertBy cmp x [] = [x]"
| "insertBy cmp x (y # ys) = (if cmp x y \<le> 0 then x # y # ys else y # insertBy cmp x ys)"

definition sortBy :: "('a \<Rightarrow> 'a \<Rightarrow> int) \<Rightarrow> 'a list \<Rightarrow> 'a list" where
  \<comment> \<open>\<open>Array.prototype.sort\<close> with a comparator: a stable sort\<close>
  "sortBy cmp xs = foldr (insertBy cmp) xs []"

definition filteredRecent ::
  "(string \<Rightarrow> string \<Rightarrow> int) \<Rightarrow> 'a cursor_scheme \<Rightarrow> Sale list \<Rightarrow> Sale list" where
  \<comment> \<open>the first argument is the platform's \<open>localeCompare\<close>\<close>
  "filteredRecent localeCompare c dataset =
     (let result = filter (\<lambda>s. extractDateOnly s = selectedDateStr c) dataset
      in sortBy (\<lambda>a b. let timeA = orEmpty (time a); timeB = orEmpty (time b)
                        in localeCompare timeB timeA) result)"

definition RECORDS_PER_PAGE :: nat where
  "RECORDS_PER_PAGE = 5"

definition slice :: "'a list \<Rightarrow> int \<Rightarrow> int \<Rightarrow> 'a list" where
  \<comment> \<open>\<open>xs.slice(start, end)\<close>: a negative index counts from the end, both are clamped\<close>
  "slice xs start fin =
     (let len = int (length xs);
          k = (if start < 0 then max (len + start) 0 else min start len);
          e = (if fin < 0 then max (len + fin) 0 else min fin len)
      in take (nat (e - k)) (drop (nat k) xs))"

definition totalPages :: "'a list \<Rightarrow> nat" where
  "totalPages filtered = nat \<lceil>rat_of_nat (length filtered) / rat_of_nat RECORDS_PER_PAGE\<rceil>"

definition paginatedRecent :: "'a list \<Rightarrow> int \<Rightarrow> 'a list" where
  "paginatedRecent filtered currentPage =
     (let start = (currentPage - 1) * int RECORDS_PER_PAGE;
          fin = start + int RECORDS_PER_PAGE
      in slice filtered start fin)"

text \<open>
  The dashboard's state: the cursor and the current page. A selector's change handler
  stores the new value; the effect that depends on the three cursor values runs after a
  render in which one of them differs, and sets the page to 1.
\<close>

record dashboard = cursor +
  currentPage :: int

definition resetEffect :: "dashboard \<Rightarrow> dashboard \<Rightarrow> dashboard" where
  "resetEffect before after =
     (if selectedYear after \<noteq> selectedYear before \<or> selectedMonth after \<noteq> selectedMonth before
         \<or> selectedDay after \<noteq> selectedDay before
      then after\<lparr>currentPage := 1\<rparr> else after)"

definition setSelectedYear :: "string \<Rightarrow> dashboard \<Rightarrow> dashboard" where
  "setSelectedYear v st = resetEffect st (st\<lparr>selectedYear := v\<rparr>)"

definition setSelectedMonth :: "string \<Rightarrow> dashboard \<Rightarrow> dashboard" where
  "setSelectedMonth v st = resetEffect st (st\<lparr>selectedMonth := v\<rparr>)"

definition setSelectedDay :: "string \<Rightarrow> dashboard \<Rightarrow> dashboard" where
  "setSelectedDay v st = resetEffect st (st\<lparr>selectedDay := v\<rparr>)"

definition setCurrentPage :: "int \<Rightarrow> dashboard \<Rightarrow> dashboard" where
  "setCurrentPage p st = st\<lparr>currentPage := p\<rparr>"

section \<open>CSV export\<close>

definition dquote :: char where
  "dquote = CHR 0x22"

definition esc :: "string \<Rightarrow> string" where
  \<comment> \<open>the value wrapped in double quotes, every double quote in it doubled\<close>
  "esc v = dquote # concat (map (\<lambda>ch. if ch = dquote then [dquote, dquote] else [ch]) v) @ [dquote]"

fun firstHourMinute :: "string \<Rightarrow> string option" where
  \<comment> \<open>the first match of \<open>/(\d{2}):(\d{2})/\<close>, as \<open>hh:mm\<close>\<close>
  "firstHourMinute (a # b # c # d # e # rest) =
     (if isDigit a \<and> isDigit b \<and> c = CHR '':'' \<and> isDigit d \<and> isDigit e then Some [a, b, CHR '':'', d, e]
      else firstHourMinute (b # c # d # e # rest))"
| "firstHourMinute _ = None"

definition formatTime :: "string \<Rightarrow> string" where
  "formatTime t = (if t = [] then [] else (case firstHourMinute t of Some hm \<Rightarrow> hm | None \<Rightarrow> t))"

definition orDefault :: "string \<Rightarrow> string option \<Rightarrow> string" where
  \<comment> \<open>\<open>v || d\<close>\<close>
  "orDefault d v = (if truthy v then orEmpty v else d)"

definition dateCell :: "Sale \<Rightarrow> string" where
  "dateCell r = (if truthy (date r) then ''='' @ [dquote] @ orEmpty (date r) @ [dquote] else [])"

definition exportCells :: "Sale \<Rightarrow> string list" where
  \<comment> \<open>the values of a row in column order, before escaping\<close>
  "exportCells r =
     [id_sale r, dateCell r, formatTime (orEmpty (time r)), product r, flavor r,
      showInt (unit r), showInt (price r), showInt (total r),
      orDefault ''POS'' (paymentMode r), userId r, orEmpty (userEmail r)]"

fun joinWith :: "string \<Rightarrow> string list \<Rightarrow> string" where
  "joinWith sep [] = []"
| "joinWith sep [x] = x"
| "joinWith sep (x # y # ys) = x @ sep @ joinWith sep (y # ys)"

definition exportRow :: "Sale \<Rightarrow> string" where
  "exportRow r = joinWith '','' (map esc (exportCells r))"

definition header :: "string list" where
  "header = [''id'', ''date'', ''time'', ''product'', ''flavor'', ''unit'', ''price'', ''total'',
             ''paymentMode'', ''userId'', ''userEmail'']"

definition exportCSV :: "Sale list \<Rightarrow> string option" where
  \<comment> \<open>\<open>None\<close>: nothing to export, an alert and no file\<close>
  "exportCSV rows =
     (if rows = [] then None
      else Some (joinWith [CHR 0x0A] (joinWith '','' header # map exportRow rows)))"

text \<open>
  Reading a quoted cell back, as a consumer of the file does: the cell starts and ends with
  a double quote, and inside it a doubled quote stands for one.
\<close>

fun unquoteBody :: "string \<Rightarrow> string option" where
  "unquoteBody [] = None"
| "unquoteBody (ch # cs) =
     (if ch = dquote then
        (case cs of
           [] \<Rightarrow> Some []
         | d # ds \<Rightarrow> if d = dquote then map_option (Cons dquote) (unquoteBody ds) else None)
      else map_option (Cons ch) (unquoteBody cs))"

definition csvUnquote :: "string \<Rightarrow> string option" where
  "csvUnquote s = (case s of [] \<Rightarrow> None | ch # cs \<Rightarrow> if ch = dquote then unquoteBody cs else None)"

section \<open>The record store and the sale mutations\<close>

text \<open>
  The hosted store keeps the sale documents by identifier. \<open>addDoc\<close> stores the fields
  it is given under a new identifier; \<open>updateDoc\<close> overwrites the fields present in its
  payload and keeps the others, and fails on an identifier the store does not hold.
\<close>

type_synonym store = "string \<rightharpoonup> Sale"

record authUser =
  uid :: string
  email :: "string option"
  displayName :: "string option"

text \<open>The argument of \<open>addSale\<close>: a sale without \<open>id\<close>, \<open>userId\<close> and \<open>date\<close>.\<close>

record newSale =
  product_n :: string
  flavor_n :: string
  unit_n :: int
  price_n :: int
  total_n :: int
  paymentMode_n :: "string option"

text \<open>The local wall clock at the time of the call, already rendered by the component.\<close>

record clock =
  dateOnly :: string
  timeOnly :: string
  serverTimestamp :: localDate

definition orNull :: "string option \<Rightarrow> string option" where
  \<comment> \<open>\<open>v || null\<close>\<close>
  "orNull v = (if truthy v then v else None)"

definition addSale ::
  "authUser option \<Rightarrow> clock \<Rightarrow> string \<Rightarrow> newSale \<Rightarrow> store \<Rightarrow> string + store" where
  \<comment> \<open>the third argument is the identifier the store assigns; \<open>Inl\<close> is the error that
      \<open>setError\<close> records, with the store as it was\<close>
  "addSale user now newId sale st =
     (case user of
        None \<Rightarrow> Inl ''User not authenticated''
      | Some u \<Rightarrow>
          Inr (st(newId \<mapsto>
            \<lparr>id_sale = newId, userId = uid u, userEmail = orNull (email u),
             product = product_n sale, flavor = flavor_n sale, unit = unit_n sale,
             price = price_n sale, total = total_n sale,
             paymentMode = Some (orDefault ''POS'' (paymentMode_n sale)),
             date = Some (dateOnly now), time = Some (timeOnly now),
             createdAt = Some (serverTimestamp now)\<rparr>)))"

text \<open>\<open>Partial<Sale>\<close>: every field of a sale, each possibly absent.\<close>

record updates =
  id_u :: "string option"
  userId_u :: "string option"
  userEmail_u :: "string option option"
  product_u :: "string option"
  flavor_u :: "string option"
  unit_u :: "int option"
  price_u :: "int option"
  total_u :: "int option"
  paymentMode_u :: "string option"
  date_u :: "string option"
  time_u :: "string option"
  createdAt_u :: "localDate option option"

record payload =
  product_p :: "string option"
  flavor_p :: "string option"
  unit_p :: "int option"
  price_p :: "int option"
  total_p :: "int option"
  paymentMode_p :: "string option"
  date_p :: "string option"
  time_p :: "string option"

definition mkPayload :: "updates \<Rightarrow> payload" where
  \<comment> \<open>the allow-list: a field of the payload is set when the update defines it\<close>
  "mkPayload u =
     \<lparr>product_p = product_u u, flavor_p = flavor_u u, unit_p = unit_u u, price_p = price_u u,
      total_p = total_u u, paymentMode_p = paymentMode_u u, date_p = date_u u,
      time_p = time_u u\<rparr>"

definition setField :: "'a option \<Rightarrow> 'a \<Rightarrow> 'a" where
  "setField new old = (case new of None \<Rightarrow> old | Some v \<Rightarrow> v)"

definition setOptField :: "'a option \<Rightarrow> 'a option \<Rightarrow> 'a option" where
  "setOptField new old = (case new of None \<Rightarrow> old | Some v \<Rightarrow> Some v)"

definition applyPayload :: "payload \<Rightarrow> Sale \<Rightarrow> Sale" where
  "applyPayload p r =
     r\<lparr>product := setField (product_p p) (product r),
       flavor := setField (flavor_p p) (flavor r),
       unit := setField (unit_p p) (unit r),
       price := setField (price_p p) (price r),
       total := setField (total_p p) (total r),
       paymentMode := setOptField (paymentMode_p p) (paymentMode r),
       date := setOptField (date_p p) (date r),
       time := setOptField (time_p p) (time r)\<rparr>"

definition updateDoc :: "string \<Rightarrow> payload \<Rightarrow> store \<Rightarrow> string + store" where
  "updateDoc i p st =
     (case st i of None \<Rightarrow> Inl ''not-found'' | Some r \<Rightarrow> Inr (st(i \<mapsto> applyPayload p r)))"

definition updateSale :: "string \<Rightarrow> updates \<Rightarrow> store \<Rightarrow> string + store" where
  "updateSale i u st =
     (case updateDoc i (mkPayload u) st of
        Inl e \<Rightarrow> Inl ''Failed to update sale''
      | Inr st' \<Rightarrow> Inr st')"

section \<open>Sales-entry form\<close>

record Flavor =
  name_f :: string
  price_f :: int

record Product =
  id_p :: string
  name_p :: string
  flavors :: "Flavor list"

record salesForm =
  products :: "Product list"
  product_s :: string
  flavor_s :: string
  unit_s :: int
  paymentMode_s :: string
  editingSale :: "Sale option"

definition formPrice :: "salesForm \<Rightarrow> int" where
  "formPrice f =
     (case find (\<lambda>p. id_p p = product_s f \<or> name_p p = product_s f) (products f) of
        None \<Rightarrow> 0
      | Some selectedProduct \<Rightarrow>
          (case find (\<lambda>fl. name_f fl = flavor_s f) (flavors selectedProduct) of
             None \<Rightarrow> 0
           | Some selectedFlavor \<Rightarrow> price_f selectedFlavor))"

definition formTotal :: "salesForm \<Rightarrow> int" where
  "formTotal f = formPrice f * unit_s f"

definition isValid :: "salesForm \<Rightarrow> bool" where
  "isValid f = (product_s f \<noteq> [] \<and> flavor_s f \<noteq> [] \<and> \<not> unit_s f < 1 \<and> paymentMode_s f \<noteq> [])"

datatype submitted = NoCall | CallUpdateSale string updates | CallAddSale newSale

definition handleSubmit :: "salesForm \<Rightarrow> submitted" where
  "handleSubmit f =
     (if \<not> isValid f then NoCall
      else
        (case editingSale f of
           Some e \<Rightarrow>
             if id_sale e \<noteq> [] then
               CallUpdateSale (id_sale e)
                 \<lparr>id_u = None, userId_u = None, userEmail_u = None,
                  product_u = Some (product_s f), flavor_u = Some (flavor_s f),
                  unit_u = Some (unit_s f), price_u = Some (formPrice f),
                  total_u = Some (formTotal f), paymentMode_u = Some (paymentMode_s f),
                  date_u = date e, time_u = time e, createdAt_u = None\<rparr>
             else
               CallAddSale
                 \<lparr>product_n = product_s f, flavor_n = flavor_s f, unit_n = unit_s f,
                  price_n = formPrice f, total_n = formTotal f,
                  paymentMode_n = Some (paymentMode_s f)\<rparr>
         | None \<Rightarrow>
             CallAddSale
               \<lparr>product_n = product_s f, flavor_n = flavor_s f, unit_n = unit_s f,
                price_n = formPrice f, total_n = formTotal f,
                paymentMode_n = Some (paymentMode_s f)\<rparr>))"

definition submitToStore ::
  "authUser option \<Rightarrow> clock \<Rightarrow> string \<Rightarrow> salesForm \<Rightarrow> store \<Rightarrow> string + store" where
  \<comment> \<open>a submission carried through to the store\<close>
  "submitToStore user now newId f st =
     (case handleSubmit f of
        NoCall \<Rightarrow> Inr st
      | CallUpdateSale i u \<Rightarrow> updateSale i u st
      | CallAddSale sale \<Rightarrow> addSale user now newId sale st)"

section \<open>Offline session cache\<close>

text \<open>
  The platform: whether the code runs in a browser, whether \<open>TextEncoder\<close> and the
  subtle-crypto interface exist, and the SHA-256 digest of a byte sequence.
\<close>

record platform =
  isBrowser :: bool
  hasTextEncoder :: bool
  hasSubtle :: bool
  sha256 :: "nat list \<Rightarrow> nat list"

record CachedSession =
  email_c :: string
  salt_c :: "nat list"
  hash_c :: string
  user_c :: authUser

text \<open>
  The two keys of local storage. A stored text either parses back to the session that was
  serialised or fails to parse.
\<close>

datatype storedSession = Unparsable | Stored CachedSession

record localStorage =
  offlineUser :: "authUser option"
  offlineSessionCache :: "storedSession option"

definition hexDigit :: "nat \<Rightarrow> char" where
  "hexDigit n = ''0123456789abcdef'' ! (n mod 16)"

definition toHex :: "nat \<Rightarrow> string" where
  \<comment> \<open>\<open>b.toString(16)\<close> for a byte\<close>
  "toHex b = (if b < 16 then [hexDigit b] else [hexDigit (b div 16), hexDigit (b mod 16)])"

definition uint8 :: "nat list \<Rightarrow> nat list" where
  \<comment> \<open>\<open>new Uint8Array(xs)\<close>\<close>
  "uint8 xs = map (\<lambda>n. n mod 256) xs"

definition encode :: "string \<Rightarrow> nat list" where
  \<comment> \<open>\<open>TextEncoder.encode\<close>: the bytes of the string\<close>
  "encode v = map of_char v"

definition hashWithSalt :: "platform \<Rightarrow> string \<Rightarrow> nat list \<Rightarrow> string" where
  "hashWithSalt pf v salt =
     (if \<not> hasTextEncoder pf \<or> \<not> hasSubtle pf then v
      else
        let valueBuffer = encode v;
            combined = salt @ valueBuffer;
            digest = sha256 pf combined
        in concat (map (\<lambda>b. padStart2 (toHex b)) (uint8 digest)))"

definition persistOfflineSession ::
  "platform \<Rightarrow> nat list \<Rightarrow> string \<Rightarrow> string \<Rightarrow> authUser \<Rightarrow> localStorage \<Rightarrow> localStorage" where
  \<comment> \<open>the second argument is the salt that \<open>getRandomValues\<close> draws\<close>
  "persistOfflineSession pf randomSalt em password u ls =
     (if \<not> isBrowser pf \<or> \<not> hasSubtle pf then ls
      else
        let salt = uint8 randomSalt;
            h = hashWithSalt pf password salt;
            pl = \<lparr>email_c = em, salt_c = salt, hash_c = h,
                  user_c = \<lparr>uid = uid u, email = orNull (email u),
                            displayName = orNull (displayName u)\<rparr>\<rparr>
        in ls\<lparr>offlineSessionCache := Some (Stored pl)\<rparr>)"

definition tryOfflineSessionLogin ::
  "platform \<Rightarrow> localStorage \<Rightarrow> string \<Rightarrow> string \<Rightarrow> authUser option" where
  "tryOfflineSessionLogin pf ls em password =
     (if \<not> isBrowser pf then None
      else
        (case offlineSessionCache ls of
           None \<Rightarrow> None
         | Some Unparsable \<Rightarrow> None
         | Some (Stored session) \<Rightarrow>
             if email_c session \<noteq> em then None
             else
               let salt = uint8 (salt_c session);
                   h = hashWithSalt pf password salt
               in if h \<noteq> hash_c session then None else Some (user_c session)))"

datatype toastKind = Info | Success | Error

record appState =
  user :: "authUser option"
  error :: "string option"
  toasts :: "(string \<times> toastKind) list"

definition login ::
  "platform \<Rightarrow> bool \<Rightarrow> (string + authUser) \<Rightarrow> nat list \<Rightarrow> string \<Rightarrow> string \<Rightarrow>
   appState \<times> localStorage \<Rightarrow> appState \<times> localStorage" where
  \<comment> \<open>the second argument is \<open>isOnline\<close>, the third the answer of the identity provider
      (an error message or the signed-in user), the fourth the salt drawn when the
      session is cached\<close>
  "login pf isOnline signIn randomSalt em password st =
     (let app = fst st; ls = snd st in
      if \<not> isOnline then
        (case tryOfflineSessionLogin pf ls em password of
           Some offlineU \<Rightarrow>
             (app\<lparr>user := Some offlineU, error := None,
                  toasts := toasts app @ [(''Signed in (offline mode)'', Success)]\<rparr>, ls)
         | None \<Rightarrow>
             (app\<lparr>error := Some ''Offline mode requires a prior successful online login.''\<rparr>, ls))
      else
        (case signIn of
           Inr u \<Rightarrow> (app\<lparr>error := None\<rparr>, persistOfflineSession pf randomSalt em password u ls)
         | Inl msg \<Rightarrow> (app\<lparr>error := Some (if msg \<noteq> [] then msg else ''Login failed'')\<rparr>, ls)))"

section \<open>Sample data\<close>

definition sampleSale :: "string \<Rightarrow> string option \<Rightarrow> string option \<Rightarrow> int \<Rightarrow> Sale" where
  "sampleSale i d t n =
     \<lparr>id_sale = i, userId = ''u1'', userEmail = Some ''alice@x.com'', product = ''Yoghurt'',
      flavor = ''Plain'', unit = 1, price = n, total = n, paymentMode = Some ''POS'',
      date = d, time = t, createdAt = None\<rparr>"

definition FALLBACK_PRODUCTS :: "Product list" where
  \<comment> \<open>the catalog the form starts with\<close>
  "FALLBACK_PRODUCTS =
     [\<lparr>id_p = ''yoghurt'', name_p = ''Yoghurt'',
       flavors = [\<lparr>name_f = ''Plain'', price_f = 850\<rparr>, \<lparr>name_f = ''Strawberry'', price_f = 950\<rparr>,
                  \<lparr>name_f = ''Mango'', price_f = 970\<rparr>]\<rparr>,
      \<lparr>id_p = ''ice_cream'', name_p = ''Ice Cream'',
       flavors = [\<lparr>name_f = ''Vanilla'', price_f = 1200\<rparr>, \<lparr>name_f = ''Chocolate'', price_f = 1350\<rparr>,
                  \<lparr>name_f = ''Caramel'', price_f = 1380\<rparr>]\<rparr>,
      \<lparr>id_p = ''snack_pack'', name_p = ''Snack Pack'',
       flavors = [\<lparr>name_f = ''Spicy'', price_f = 730\<rparr>, \<lparr>name_f = ''Salted'', price_f = 650\<rparr>,
                  \<lparr>name_f = ''Sweet'', price_f = 680\<rparr>]\<rparr>]"

definition sampleForm :: salesForm where
  "sampleForm =
     \<lparr>products = FALLBACK_PRODUCTS, product_s = ''Yoghurt'', flavor_s = ''Mango'', unit_s = 3,
      paymentMode_s = ''Cash'', editingSale = None\<rparr>"

definition sampleUser :: authUser where
  "sampleUser = \<lparr>uid = ''u1'', email = Some ''alice@x.com'', displayName = None\<rparr>"

definition sampleClock :: clock where
  "sampleClock =
     \<lparr>dateOnly = ''2024-03-05'', timeOnly = ''10:22:00'',
      serverTimestamp = \<lparr>getFullYear = 2024, getMonth = 2, getDate = 5\<rparr>\<rparr>"

definition samplePlatform :: platform where
  \<comment> \<open>a browser with both interfaces; the digest is a stand-in of one byte\<close>
  "samplePlatform =
     \<lparr>isBrowser = True, hasTextEncoder = True, hasSubtle = True,
      sha256 = (\<lambda>bs. [sum_list bs mod 256])\<rparr>"

definition emptyStorage :: localStorage where
  "emptyStorage = \<lparr>offlineUser = None, offlineSessionCache = None\<rparr>"

definition sampleUpdates :: updates where
  "sampleUpdates =
     \<lparr>id_u = Some ''other'', userId_u = Some ''mallory'', userEmail_u = Some (Some ''m@x.com''),
      product_u = Some ''Ice Cream'', flavor_u = Some ''Vanilla'', unit_u = Some 2,
      price_u = Some 1200, total_u = Some 2400, paymentMode_u = Some ''Cash'',
      date_u = Some ''2024-03-06'', time_u = None, createdAt_u = Some None\<rparr>"

definition codeUnitCompare :: "string \<Rightarrow> string \<Rightarrow> int" where
  \<comment> \<open>a comparator that orders strings character by character, as
      \<open>localeCompare\<close> orders the digits and colons of \<open>HH:MM:SS\<close>\<close>
  "codeUnitCompare a b = (if a < b then - 1 else if a = b then 0 else 1)"

definition sampleNow :: localDate where
  "sampleNow = \<lparr>getFullYear = 2024, getMonth = 2, getDate = 5\<rparr>"

definition sampleApp :: appState where
  "sampleApp = \<lparr>user = None, error = None, toasts = []\<rparr>"

definition sampleCursor :: cursor where
  "sampleCursor = \<lparr>selectedYear = ''2024'', selectedMonth = ''03'', selectedDay = ''05''\<rparr>"

section \<open>Splitting strings\<close>

lemma splitOn_ne: "splitOn c s \<noteq> []"
  by (induction s) (auto split: list.splits)

lemma hd_splitOn: "hd (splitOn c s) = takeWhile (\<lambda>x. x \<noteq> c) s"
  by (induction s) (auto split: list.splits simp: splitOn_ne)

lemma splitOn_nosep: "c \<notin> set a \<Longrightarrow> splitOn c a = [a]"
  by (induction a) auto

lemma splitOn_append: "c \<notin> set a \<Longrightarrow> splitOn c (a @ c # b) = a # splitOn c b"
  by (induction a) auto

section \<open>Selector values\<close>

lemma digitChar_isDigit: "isDigit (digitChar n)"
proof -
  have "n mod 10 < length ''0123456789''" by simp
  then have "''0123456789'' ! (n mod 10) \<in> set ''0123456789''" by (rule nth_mem)
  then show ?thesis by (simp only: isDigit_def digitChar_def)
qed

lemma showNat_digits: "ch \<in> set (showNat n) \<Longrightarrow> isDigit ch"
proof (induction n arbitrary: ch rule: showNat.induct)
  case (1 n)
  show ?case
  proof (cases "n < 10")
    case True
    then have "showNat n = [digitChar n]" by (simp add: showNat.simps)
    then show ?thesis using "1.prems" by (simp add: digitChar_isDigit)
  next
    case False
    then have "showNat n = showNat (n div 10) @ [digitChar (n mod 10)]"
      by (subst showNat.simps) simp
    then show ?thesis using "1.prems" "1.IH"[OF False] by (auto simp: digitChar_isDigit)
  qed
qed

lemma isDigit_not_dash: "isDigit ch \<Longrightarrow> ch \<noteq> CHR ''-''"
  by (auto simp: isDigit_def)

lemma isDigit_zero: "isDigit CHR ''0''"
  by (simp add: isDigit_def)

lemma padStart2_digits: "ch \<in> set (padStart2 (showNat n)) \<Longrightarrow> isDigit ch"
  by (auto simp: padStart2_def isDigit_zero dest: showNat_digits)

lemma selector_values_no_dash:
  assumes "v \<in> fst ` set monthOptions \<union> fst ` set dayOptions"
  shows "CHR ''-'' \<notin> set v"
proof -
  consider "v \<in> fst ` set monthOptions" | "v \<in> fst ` set dayOptions" using assms by blast
  then show ?thesis
  proof cases
    case 1
    then show ?thesis by (auto simp: monthOptions_def)
  next
    case 2
    then obtain d where "v = padStart2 (showNat d)" by (auto simp: dayOptions_def)
    then show ?thesis using padStart2_digits isDigit_not_dash by blast
  qed
qed

section \<open>KPI roll-up is hierarchical\<close>

lemma kpiStep_alt:
  "kpiStep c k s =
     \<lparr>dayTotal = dayTotal k + (if countedDay c s then total s else 0),
      dayCount = dayCount k + (if countedDay c s then 1 else 0),
      monthTotal = monthTotal k + (if countedMonth c s then total s else 0),
      monthCount = monthCount k + (if countedMonth c s then 1 else 0),
      yearTotal = yearTotal k + (if countedYear c s then total s else 0),
      yearCount = yearCount k + (if countedYear c s then 1 else 0)\<rparr>"
  by (simp add: kpiStep_def countedDay_def countedMonth_def countedYear_def Let_def)

lemma kpi_fold:
  "foldl (kpiStep c) k ds =
     \<lparr>dayTotal = dayTotal k + sum_list (map total (filter (countedDay c) ds)),
      dayCount = dayCount k + length (filter (countedDay c) ds),
      monthTotal = monthTotal k + sum_list (map total (filter (countedMonth c) ds)),
      monthCount = monthCount k + length (filter (countedMonth c) ds),
      yearTotal = yearTotal k + sum_list (map total (filter (countedYear c) ds)),
      yearCount = yearCount k + length (filter (countedYear c) ds)\<rparr>"
proof (induction ds arbitrary: k)
  case Nil
  show ?case by simp
next
  case (Cons s ds)
  show ?case
    unfolding foldl_Cons Cons.IH
    by (simp add: kpiStep_alt)
qed

lemma year_first_piece:
  assumes "nthOpt (splitOn CHR ''-'' (y @ CHR ''-'' # r)) 0 = Some y"
  shows "CHR ''-'' \<notin> set y"
proof -
  have "hd (splitOn CHR ''-'' (y @ CHR ''-'' # r)) = y"
    using assms splitOn_ne[of "CHR ''-''" "y @ CHR ''-'' # r"]
    by (cases "splitOn CHR ''-'' (y @ CHR ''-'' # r)") (auto simp: nthOpt_def split: if_splits)
  then have "takeWhile (\<lambda>x. x \<noteq> CHR ''-'') (y @ CHR ''-'' # r) = y"
    by (simp add: hd_splitOn)
  then show ?thesis
    by (metis (mono_tags, lifting) set_takeWhileD)
qed

lemma same_day_all:
  assumes m: "CHR ''-'' \<notin> set (selectedMonth c)" and d: "CHR ''-'' \<notin> set (selectedDay c)"
    and e: "extractDateOnly s = selectedDateStr c" and y: "countedYear c s"
  shows "countedDay c s"
proof -
  have p: "nthOpt (splitOn CHR ''-'' (selectedYear c @ CHR ''-'' # (selectedMonth c @ CHR ''-'' # selectedDay c))) 0 = Some (selectedYear c)"
    using y e by (simp add: countedYear_def selectedDateStr_def)
  have ny: "CHR ''-'' \<notin> set (selectedYear c)" by (rule year_first_piece[OF p])
  have "splitOn CHR ''-'' (extractDateOnly s) = [selectedYear c, selectedMonth c, selectedDay c]"
    using ny m d by (simp add: e selectedDateStr_def splitOn_append splitOn_nosep)
  then show ?thesis using y
    by (simp add: countedDay_def countedMonth_def nthOpt_def)
qed


lemma length_filter_mono:
  "(\<And>x. P x \<Longrightarrow> Q x) \<Longrightarrow> length (filter P xs) \<le> length (filter Q xs)"
  by (induction xs) auto

text \<open>
  Claim C1. A record counted in the day bucket is counted in the month and year buckets:
  the three counts and totals of \<open>computeKpis\<close> are those of the records passing the
  day, month and year conditions, each condition implies the next, and the counts are
  ordered. When every record's extracted date is the cursor's full date, the month and day
  of the cursor holding no dash (no value of the month and day selectors does, by
  \<open>selector_values_no_dash\<close>), the day, month and year counts are equal and so are the
  three totals.
\<close>

theorem kpi_rollup_hierarchical:
  "(countedDay c s \<longrightarrow> countedMonth c s \<and> countedYear c s) \<and>
   dayCount (computeKpis c ds) = length (filter (countedDay c) ds) \<and>
   monthCount (computeKpis c ds) = length (filter (countedMonth c) ds) \<and>
   yearCount (computeKpis c ds) = length (filter (countedYear c) ds) \<and>
   dayTotal (computeKpis c ds) = sum_list (map total (filter (countedDay c) ds)) \<and>
   monthTotal (computeKpis c ds) = sum_list (map total (filter (countedMonth c) ds)) \<and>
   yearTotal (computeKpis c ds) = sum_list (map total (filter (countedYear c) ds)) \<and>
   dayCount (computeKpis c ds) \<le> monthCount (computeKpis c ds) \<and>
   monthCount (computeKpis c ds) \<le> yearCount (computeKpis c ds) \<and>
   (CHR ''-'' \<notin> set (selectedMonth c) \<and> CHR ''-'' \<notin> set (selectedDay c) \<and>
    (\<forall>r \<in> set ds. extractDateOnly r = selectedDateStr c) \<longrightarrow>
      dayCount (computeKpis c ds) = monthCount (computeKpis c ds) \<and>
      monthCount (computeKpis c ds) = yearCount (computeKpis c ds) \<and>
      dayTotal (computeKpis c ds) = monthTotal (computeKpis c ds) \<and>
      monthTotal (computeKpis c ds) = yearTotal (computeKpis c ds))"
proof -
  have k: "computeKpis c ds =
     \<lparr>dayTotal = sum_list (map total (filter (countedDay c) ds)),
      dayCount = length (filter (countedDay c) ds),
      monthTotal = sum_list (map total (filter (countedMonth c) ds)),
      monthCount = length (filter (countedMonth c) ds),
      yearTotal = sum_list (map total (filter (countedYear c) ds)),
      yearCount = length (filter (countedYear c) ds)\<rparr>"
    by (simp add: computeKpis_def kpi_fold kpiZero_def)
  have le1: "length (filter (countedDay c) ds) \<le> length (filter (countedMonth c) ds)"
    by (rule length_filter_mono) (simp add: countedDay_def)
  have le2: "length (filter (countedMonth c) ds) \<le> length (filter (countedYear c) ds)"
    by (rule length_filter_mono) (simp add: countedMonth_def)
  have same: "filter (countedDay c) ds = filter (countedYear c) ds
      \<and> filter (countedMonth c) ds = filter (countedYear c) ds"
    if m: "CHR ''-'' \<notin> set (selectedMonth c)" and d: "CHR ''-'' \<notin> set (selectedDay c)"
      and e: "\<forall>r \<in> set ds. extractDateOnly r = selectedDateStr c"
  proof -
    have "countedDay c r = countedYear c r \<and> countedMonth c r = countedYear c r" if "r \<in> set ds" for r
      using same_day_all[OF m d, of r] e that
      by (auto simp: countedDay_def countedMonth_def)
    then show ?thesis
      by (simp cong: filter_cong)
  qed
  show ?thesis
    unfolding k using le1 le2 same
    by (simp add: countedDay_def countedMonth_def)
qed

theorem kpi_rollup_hierarchical_witness:
  "CHR ''-'' \<notin> set (selectedMonth sampleCursor) \<and> CHR ''-'' \<notin> set (selectedDay sampleCursor) \<and>
   extractDateOnly (sampleSale ''a'' (Some ''2024-03-05'') None 100) = selectedDateStr sampleCursor \<and>
   extractDateOnly (sampleSale ''b'' (Some ''2024-03-05T10:22:00Z'') None 50) = selectedDateStr sampleCursor \<and>
   yearCount (computeKpis sampleCursor
       [sampleSale ''a'' (Some ''2024-03-05'') None 100,
        sampleSale ''b'' (Some ''2024-03-05T10:22:00Z'') None 50]) = 2 \<and>
   dayCount (computeKpis sampleCursor
       [sampleSale ''a'' (Some ''2024-03-05'') None 100,
        sampleSale ''b'' (Some ''2024-03-05T10:22:00Z'') None 50]) = 2 \<and>
   yearTotal (computeKpis sampleCursor
       [sampleSale ''a'' (Some ''2024-03-05'') None 100,
        sampleSale ''b'' (Some ''2024-03-05T10:22:00Z'') None 50]) = 150 \<and>
   dayTotal (computeKpis sampleCursor
       [sampleSale ''a'' (Some ''2024-03-05'') None 100,
        sampleSale ''b'' (Some ''2024-03-05T10:22:00Z'') None 50]) = 150"
proof -
  let ?a = "sampleSale ''a'' (Some ''2024-03-05'') None 100"
  let ?b = "sampleSale ''b'' (Some ''2024-03-05T10:22:00Z'') None 50"
  have ea: "extractDateOnly ?a = ''2024-03-05''"
    by (simp add: extractDateOnly_def sampleSale_def orEmpty_def isDigit_def)
  have eb: "extractDateOnly ?b = ''2024-03-05''"
    by (simp add: extractDateOnly_def sampleSale_def orEmpty_def isDigit_def)
  have sd: "selectedDateStr sampleCursor = ''2024-03-05''"
    by (simp add: selectedDateStr_def sampleCursor_def)
  have m: "CHR ''-'' \<notin> set (selectedMonth sampleCursor)" and d: "CHR ''-'' \<notin> set (selectedDay sampleCursor)"
    by (simp_all add: sampleCursor_def)
  have yc: "yearCount (computeKpis sampleCursor [?a, ?b]) = 2"
    and yt: "yearTotal (computeKpis sampleCursor [?a, ?b]) = 150"
    by (simp_all add: computeKpis_def kpiStep_def kpiZero_def ea eb nthOpt_def Let_def sampleCursor_def)
       (simp_all add: sampleSale_def)
  have "\<forall>r \<in> set [?a, ?b]. extractDateOnly r = selectedDateStr sampleCursor"
    by (simp add: ea eb sd)
  with m d kpi_rollup_hierarchical[of sampleCursor ?a "[?a, ?b]"]
  have "dayCount (computeKpis sampleCursor [?a, ?b]) = yearCount (computeKpis sampleCursor [?a, ?b])"
    and "dayTotal (computeKpis sampleCursor [?a, ?b]) = yearTotal (computeKpis sampleCursor [?a, ?b])"
    by simp_all
  with yc yt m d ea eb sd show ?thesis by simp
qed

section \<open>Date extraction\<close>

lemma isPlainDate_length: "isPlainDate d \<Longrightarrow> length d = 10"
  by (induction d rule: isPlainDate.induct) simp_all

lemma isDigit_not_T: "isDigit x \<Longrightarrow> x \<noteq> CHR ''T''"
  by (auto simp: isDigit_def)

lemma isPlainDate_no_T: "isPlainDate d \<Longrightarrow> CHR ''T'' \<notin> set d"
  by (induction d rule: isPlainDate.induct) (simp_all, blast dest: isDigit_not_T)

lemma extractDateOnly_plain: "isPlainDate d \<Longrightarrow> extractDateOnly (s\<lparr>date := Some d\<rparr>) = d"
  using isPlainDate_length[of d] by (auto simp: extractDateOnly_def orEmpty_def)

lemma extractDateOnly_T:
  assumes "CHR ''T'' \<in> set d"
  shows "extractDateOnly (s\<lparr>date := Some d\<rparr>) = takeWhile (\<lambda>x. x \<noteq> CHR ''T'') d"
proof -
  have "\<not> isPlainDate d" using assms isPlainDate_no_T by blast
  moreover have "d \<noteq> []" using assms by auto
  ultimately show ?thesis using assms
    by (simp add: extractDateOnly_def orEmpty_def hd_splitOn)
qed

lemma extractDateOnly_absent:
  "\<not> truthy (date s) \<Longrightarrow>
     extractDateOnly s = (case createdAt s of Some t \<Rightarrow> formatLocalDate t | None \<Rightarrow> [])"
  by (auto simp: extractDateOnly_def orEmpty_def truthy_def split: option.splits)

lemma kpiStep_unresolved: "extractDateOnly r = [] \<Longrightarrow> kpiStep c k r = k"
  by (simp add: kpiStep_def)

lemma totalsStep_unresolved: "extractDateOnly r = [] \<Longrightarrow> totalsStep m r = m"
  by (simp add: totalsStep_def recordKey_def)

lemma foldl_skip:
  "(\<And>a x. \<not> P x \<Longrightarrow> f a x = a) \<Longrightarrow> foldl f a (filter P xs) = foldl f a xs"
  by (induction xs arbitrary: a) auto

lemma kpiStep_same_date:
  "extractDateOnly a = extractDateOnly b \<Longrightarrow> total a = total b \<Longrightarrow> kpiStep c k a = kpiStep c k b"
  by (simp add: kpiStep_def Let_def)

lemma totalsStep_same_date:
  "extractDateOnly a = extractDateOnly b \<Longrightarrow> total a = total b \<Longrightarrow> totalsStep m a = totalsStep m b"
  by (simp add: totalsStep_def recordKey_def Let_def)

lemma selectedDateStr_nonempty: "selectedDateStr c \<noteq> []"
  by (simp add: selectedDateStr_def)

text \<open>
  Claim C5. Date extraction returns a value for every record and normalises it: a plain
  \<open>YYYY-MM-DD\<close> date field is returned as it is; a date field holding a \<open>T\<close>
  yields the part before the first \<open>T\<close>; an absent (or empty) date field falls back
  to the local calendar date of the creation timestamp, and to the empty string when
  there is none. The dates \<open>2024-03-05T10:22:00Z\<close> and \<open>2024-03-05\<close> extract to
  the same date and take the same step in the KPI loop and in the trend totals. A record
  whose extraction is empty changes neither the KPIs, nor the trend series, nor the
  filtered listing: each is what it is on the dataset without such records, and no error
  value exists in any of them.
\<close>

theorem extractDateOnly_total_normalizing:
  "(isPlainDate d \<longrightarrow> extractDateOnly (s\<lparr>date := Some d\<rparr>) = d) \<and>
   (CHR ''T'' \<in> set d \<longrightarrow>
      extractDateOnly (s\<lparr>date := Some d\<rparr>) = takeWhile (\<lambda>x. x \<noteq> CHR ''T'') d) \<and>
   (\<not> truthy (date s) \<longrightarrow>
      extractDateOnly s = (case createdAt s of Some t \<Rightarrow> formatLocalDate t | None \<Rightarrow> [])) \<and>
   extractDateOnly (s\<lparr>date := Some ''2024-03-05T10:22:00Z''\<rparr>) = ''2024-03-05'' \<and>
   extractDateOnly (s\<lparr>date := Some ''2024-03-05''\<rparr>) = ''2024-03-05'' \<and>
   kpiStep c k (s\<lparr>date := Some ''2024-03-05T10:22:00Z''\<rparr>) = kpiStep c k (s\<lparr>date := Some ''2024-03-05''\<rparr>) \<and>
   totalsStep m (s\<lparr>date := Some ''2024-03-05T10:22:00Z''\<rparr>) = totalsStep m (s\<lparr>date := Some ''2024-03-05''\<rparr>) \<and>
   computeKpis c (filter (\<lambda>r. extractDateOnly r \<noteq> []) ds) = computeKpis c ds \<and>
   monthlySeries now (filter (\<lambda>r. extractDateOnly r \<noteq> []) ds) = monthlySeries now ds \<and>
   filteredRecent lc c (filter (\<lambda>r. extractDateOnly r \<noteq> []) ds) = filteredRecent lc c ds"
proof -
  have e1: "extractDateOnly (s\<lparr>date := Some ''2024-03-05T10:22:00Z''\<rparr>) = ''2024-03-05''"
    by (simp add: extractDateOnly_T)
  have e2: "extractDateOnly (s\<lparr>date := Some ''2024-03-05''\<rparr>) = ''2024-03-05''"
    by (rule extractDateOnly_plain) (simp add: isDigit_def)
  have ks: "kpiStep c k (s\<lparr>date := Some ''2024-03-05T10:22:00Z''\<rparr>) = kpiStep c k (s\<lparr>date := Some ''2024-03-05''\<rparr>)"
    by (rule kpiStep_same_date) (simp_all only: e1 e2, simp)
  have ts: "totalsStep m (s\<lparr>date := Some ''2024-03-05T10:22:00Z''\<rparr>) = totalsStep m (s\<lparr>date := Some ''2024-03-05''\<rparr>)"
    by (rule totalsStep_same_date) (simp_all only: e1 e2, simp)
  have k: "computeKpis c (filter (\<lambda>r. extractDateOnly r \<noteq> []) ds) = computeKpis c ds"
    unfolding computeKpis_def by (rule foldl_skip) (simp add: kpiStep_unresolved)
  have t: "foldl totalsStep Map.empty (filter (\<lambda>r. extractDateOnly r \<noteq> []) ds)
             = foldl totalsStep Map.empty ds"
    by (rule foldl_skip) (simp add: totalsStep_unresolved)
  have ms: "monthlySeries now (filter (\<lambda>r. extractDateOnly r \<noteq> []) ds) = monthlySeries now ds"
    unfolding monthlySeries_def t ..
  have f: "filter (\<lambda>r. extractDateOnly r = selectedDateStr c) (filter (\<lambda>r. extractDateOnly r \<noteq> []) ds)
             = filter (\<lambda>r. extractDateOnly r = selectedDateStr c) ds"
    using selectedDateStr_nonempty[of c] by (auto intro: filter_cong)
  have fr: "filteredRecent lc c (filter (\<lambda>r. extractDateOnly r \<noteq> []) ds) = filteredRecent lc c ds"
    unfolding filteredRecent_def f ..
  show ?thesis
    by (intro conjI impI extractDateOnly_plain extractDateOnly_T extractDateOnly_absent
        e1 e2 ks ts k ms fr)
qed

theorem extractDateOnly_total_normalizing_witness:
  "isPlainDate ''2024-03-05'' \<and> CHR ''T'' \<in> set ''2024-03-05T10:22:00Z'' \<and>
   \<not> truthy (date (sampleSale ''a'' None None 100\<lparr>createdAt := Some \<lparr>getFullYear = 2024, getMonth = 2, getDate = 5\<rparr>\<rparr>)) \<and>
   extractDateOnly (sampleSale ''a'' None None 100\<lparr>date := Some ''2024-03-05''\<rparr>) = ''2024-03-05'' \<and>
   extractDateOnly (sampleSale ''a'' None None 100\<lparr>date := Some ''2024-03-05T10:22:00Z''\<rparr>) = ''2024-03-05'' \<and>
   extractDateOnly (sampleSale ''a'' None None 100\<lparr>createdAt := Some \<lparr>getFullYear = 2024, getMonth = 2, getDate = 5\<rparr>\<rparr>) = ''2024-03-05'' \<and>
   extractDateOnly (sampleSale ''a'' None None 100) = [] \<and>
   computeKpis sampleCursor [sampleSale ''a'' None None 100, sampleSale ''b'' (Some ''garbage'') None 7] = kpiZero"
proof -
  let ?s = "sampleSale ''a'' None None 100"
  let ?g = "sampleSale ''b'' (Some ''garbage'') None 7"
  let ?c = "?s\<lparr>createdAt := Some \<lparr>getFullYear = 2024, getMonth = 2, getDate = 5\<rparr>\<rparr>"
  have p: "isPlainDate ''2024-03-05''" by (simp add: isDigit_def)
  have t: "CHR ''T'' \<in> set ''2024-03-05T10:22:00Z''" by simp
  have a: "\<not> truthy (date ?c)" by (simp add: truthy_def sampleSale_def)
  have fl: "formatLocalDate \<lparr>getFullYear = 2024, getMonth = 2, getDate = 5\<rparr> = ''2024-03-05''"
    by (simp add: formatLocalDate_def showInt_def padStart2_def showNat.simps digitChar_def)
  have ca: "createdAt ?c = Some \<lparr>getFullYear = 2024, getMonth = 2, getDate = 5\<rparr>"
    by simp
  have 1: "extractDateOnly (?s\<lparr>date := Some ''2024-03-05''\<rparr>) = ''2024-03-05''"
    using extractDateOnly_total_normalizing[of "''2024-03-05''" ?s, THEN conjunct1] p by blast
  have 2: "extractDateOnly (?s\<lparr>date := Some ''2024-03-05T10:22:00Z''\<rparr>) = ''2024-03-05''"
    by (rule extractDateOnly_total_normalizing[THEN conjunct2, THEN conjunct2, THEN conjunct2, THEN conjunct1])
  have "extractDateOnly ?c = (case createdAt ?c of Some t \<Rightarrow> formatLocalDate t | None \<Rightarrow> [])"
    using extractDateOnly_total_normalizing[of _ ?c, THEN conjunct2, THEN conjunct2, THEN conjunct1] a
    by blast
  then have 3: "extractDateOnly ?c = ''2024-03-05''"
    unfolding ca by (simp only: option.case fl)
  have 4: "extractDateOnly ?s = []" and 5: "extractDateOnly ?g = []"
    by (simp_all add: extractDateOnly_def sampleSale_def orEmpty_def)
  have "computeKpis sampleCursor (filter (\<lambda>r. extractDateOnly r \<noteq> []) [?s, ?g]) = computeKpis sampleCursor [?s, ?g]"
    by (rule extractDateOnly_total_normalizing[THEN conjunct2, THEN conjunct2, THEN conjunct2,
          THEN conjunct2, THEN conjunct2, THEN conjunct2, THEN conjunct2, THEN conjunct1])
  then have 6: "computeKpis sampleCursor [?s, ?g] = kpiZero"
    by (simp add: 4 5 computeKpis_def)
  show ?thesis
    by (intro conjI p t a 1 2 3 4 6)
qed

section \<open>Offline login\<close>

lemma uint8_idem: "uint8 (uint8 xs) = uint8 xs"
  by (simp add: uint8_def)

lemma tryOffline_Some_iff:
  "tryOfflineSessionLogin pf ls em pw = Some cu \<longleftrightarrow>
     isBrowser pf \<and>
     (\<exists>sess. offlineSessionCache ls = Some (Stored sess) \<and> email_c sess = em \<and>
        hashWithSalt pf pw (uint8 (salt_c sess)) = hash_c sess \<and> cu = user_c sess)"
  by (auto simp: tryOfflineSessionLogin_def Let_def split: option.splits storedSession.splits)

lemma persist_cache:
  "isBrowser pf \<Longrightarrow> hasSubtle pf \<Longrightarrow>
   offlineSessionCache (persistOfflineSession pf rs e p u ls) =
     Some (Stored \<lparr>email_c = e, salt_c = uint8 rs, hash_c = hashWithSalt pf p (uint8 rs),
                   user_c = \<lparr>uid = uid u, email = orNull (email u),
                             displayName = orNull (displayName u)\<rparr>\<rparr>)"
  by (simp add: persistOfflineSession_def Let_def)

text \<open>
  Claim C4. Against the cache that \<open>persistOfflineSession\<close> writes for an email and a
  password, an offline attempt returns a user exactly when it supplies that email and a
  password whose digest under the cached salt is the cached digest, and the user it
  returns is the cached minimal record. For any content of the cache, an attempt succeeds
  exactly when a stored session has the attempt's email and the digest of the attempt's
  password under its salt; an empty cache fails. Every failed attempt leaves \<open>login\<close>
  in the same state, with the one message about a prior online login, whatever the cause.
\<close>

theorem offline_login_iff:
  "(isBrowser pf \<and> hasSubtle pf \<longrightarrow>
      (tryOfflineSessionLogin pf (persistOfflineSession pf rs e p u ls) e' p' = Some cu
       \<longleftrightarrow> e' = e \<and> hashWithSalt pf p' (uint8 rs) = hashWithSalt pf p (uint8 rs) \<and>
           cu = \<lparr>uid = uid u, email = orNull (email u), displayName = orNull (displayName u)\<rparr>)) \<and>
   (tryOfflineSessionLogin pf ls' e' p' = Some cu \<longleftrightarrow>
      isBrowser pf \<and>
      (\<exists>sess. offlineSessionCache ls' = Some (Stored sess) \<and> email_c sess = e' \<and>
         hashWithSalt pf p' (uint8 (salt_c sess)) = hash_c sess \<and> cu = user_c sess)) \<and>
   (offlineSessionCache ls' = None \<longrightarrow> tryOfflineSessionLogin pf ls' e' p' = None) \<and>
   (tryOfflineSessionLogin pf ls' e' p' = None \<longrightarrow>
      login pf False signIn rs' e' p' (app, ls') =
        (app\<lparr>error := Some ''Offline mode requires a prior successful online login.''\<rparr>, ls')) \<and>
   (tryOfflineSessionLogin pf ls' e' p' = Some cu \<longrightarrow>
      login pf False signIn rs' e' p' (app, ls') =
        (app\<lparr>user := Some cu, error := None,
             toasts := toasts app @ [(''Signed in (offline mode)'', Success)]\<rparr>, ls'))"
proof -
  have a: "tryOfflineSessionLogin pf (persistOfflineSession pf rs e p u ls) e' p' = Some cu
       \<longleftrightarrow> e' = e \<and> hashWithSalt pf p' (uint8 rs) = hashWithSalt pf p (uint8 rs) \<and>
           cu = \<lparr>uid = uid u, email = orNull (email u), displayName = orNull (displayName u)\<rparr>"
    if "isBrowser pf" "hasSubtle pf"
    using that by (auto simp: tryOffline_Some_iff persist_cache uint8_idem)
  have c: "tryOfflineSessionLogin pf ls' e' p' = None" if "offlineSessionCache ls' = None"
    using that by (simp add: tryOfflineSessionLogin_def)
  have d: "login pf False signIn rs' e' p' (app, ls') =
        (app\<lparr>error := Some ''Offline mode requires a prior successful online login.''\<rparr>, ls')"
    if "tryOfflineSessionLogin pf ls' e' p' = None"
    using that by (simp add: login_def)
  have s: "login pf False signIn rs' e' p' (app, ls') =
        (app\<lparr>user := Some cu, error := None,
             toasts := toasts app @ [(''Signed in (offline mode)'', Success)]\<rparr>, ls')"
    if "tryOfflineSessionLogin pf ls' e' p' = Some cu"
    using that by (simp add: login_def)
  show ?thesis
    using a c d s tryOffline_Some_iff[of pf ls' e' p' cu] by blast
qed

lemma sample_hash_pw1: "hashWithSalt samplePlatform ''pw1'' (uint8 [7, 2, 3]) = ''24''"
  by (simp add: hashWithSalt_def samplePlatform_def uint8_def encode_def Let_def toHex_def
      hexDigit_def padStart2_def)

lemma sample_hash_wrong: "hashWithSalt samplePlatform ''wrong'' (uint8 [7, 2, 3]) = ''39''"
  by (simp add: hashWithSalt_def samplePlatform_def uint8_def encode_def Let_def toHex_def
      hexDigit_def padStart2_def)

theorem offline_login_iff_witness:
  "isBrowser samplePlatform \<and> hasSubtle samplePlatform \<and>
   tryOfflineSessionLogin samplePlatform
     (persistOfflineSession samplePlatform [7, 2, 3] ''alice@x.com'' ''pw1'' sampleUser emptyStorage)
     ''alice@x.com'' ''pw1'' = Some sampleUser \<and>
   tryOfflineSessionLogin samplePlatform
     (persistOfflineSession samplePlatform [7, 2, 3] ''alice@x.com'' ''pw1'' sampleUser emptyStorage)
     ''alice@x.com'' ''wrong'' = None \<and>
   tryOfflineSessionLogin samplePlatform
     (persistOfflineSession samplePlatform [7, 2, 3] ''alice@x.com'' ''pw1'' sampleUser emptyStorage)
     ''bob@x.com'' ''pw1'' = None \<and>
   tryOfflineSessionLogin samplePlatform emptyStorage ''alice@x.com'' ''pw1'' = None \<and>
   login samplePlatform False (Inl []) [] ''alice@x.com'' ''wrong''
     (sampleApp,
      persistOfflineSession samplePlatform [7, 2, 3] ''alice@x.com'' ''pw1'' sampleUser emptyStorage) =
     (sampleApp\<lparr>error := Some ''Offline mode requires a prior successful online login.''\<rparr>,
      persistOfflineSession samplePlatform [7, 2, 3] ''alice@x.com'' ''pw1'' sampleUser emptyStorage) \<and>
   login samplePlatform False (Inl []) [] ''alice@x.com'' ''pw1'' (sampleApp, emptyStorage) =
     (sampleApp\<lparr>error := Some ''Offline mode requires a prior successful online login.''\<rparr>,
      emptyStorage) \<and>
   login samplePlatform False (Inl []) [] ''alice@x.com'' ''pw1''
     (sampleApp,
      persistOfflineSession samplePlatform [7, 2, 3] ''alice@x.com'' ''pw1'' sampleUser emptyStorage) =
     (sampleApp\<lparr>user := Some sampleUser, error := None,
                 toasts := toasts sampleApp @ [(''Signed in (offline mode)'', Success)]\<rparr>,
      persistOfflineSession samplePlatform [7, 2, 3] ''alice@x.com'' ''pw1'' sampleUser emptyStorage)"
proof -
  let ?ls = "persistOfflineSession samplePlatform [7, 2, 3] ''alice@x.com'' ''pw1'' sampleUser emptyStorage"
  have b: "isBrowser samplePlatform" and h: "hasSubtle samplePlatform"
    by (simp_all add: samplePlatform_def)
  have u: "\<lparr>uid = uid sampleUser, email = orNull (email sampleUser),
            displayName = orNull (displayName sampleUser)\<rparr> = sampleUser"
    by (simp add: sampleUser_def orNull_def truthy_def)
  note th = offline_login_iff[where pf = samplePlatform and rs = "[7, 2, 3]" and e = "''alice@x.com''"
      and p = "''pw1''" and u = sampleUser and ls = emptyStorage
      and ls' = emptyStorage, unfolded u]
  have 1: "tryOfflineSessionLogin samplePlatform ?ls ''alice@x.com'' ''pw1'' = Some sampleUser"
    using th[of "''alice@x.com''" "''pw1''" sampleUser, THEN conjunct1] b h by simp
  have 2: "tryOfflineSessionLogin samplePlatform ?ls ''alice@x.com'' ''wrong'' = None"
  proof (cases "tryOfflineSessionLogin samplePlatform ?ls ''alice@x.com'' ''wrong''")
    case None
    then show ?thesis .
  next
    case (Some cu)
    then show ?thesis
      using th[of "''alice@x.com''" "''wrong''" cu, THEN conjunct1] b h
      by (simp add: sample_hash_pw1 sample_hash_wrong)
  qed
  have 3: "tryOfflineSessionLogin samplePlatform ?ls ''bob@x.com'' ''pw1'' = None"
  proof (cases "tryOfflineSessionLogin samplePlatform ?ls ''bob@x.com'' ''pw1''")
    case None
    then show ?thesis .
  next
    case (Some cu)
    then show ?thesis
      using th[of "''bob@x.com''" "''pw1''" cu, THEN conjunct1] b h by simp
  qed
  have 4: "tryOfflineSessionLogin samplePlatform emptyStorage ''alice@x.com'' ''pw1'' = None"
    using th[of "''alice@x.com''" "''pw1''", THEN conjunct2, THEN conjunct2, THEN conjunct1]
    by (simp add: emptyStorage_def)
  have 5: "login samplePlatform False (Inl []) [] ''alice@x.com'' ''wrong'' (sampleApp, ?ls) =
     (sampleApp\<lparr>error := Some ''Offline mode requires a prior successful online login.''\<rparr>, ?ls)"
    using offline_login_iff[where pf = samplePlatform and ls' = ?ls and e' = "''alice@x.com''"
        and p' = "''wrong''" and app = sampleApp and signIn = "Inl []" and rs' = "[]",
        THEN conjunct2, THEN conjunct2, THEN conjunct2, THEN conjunct1] 2
    by blast
  have 6: "login samplePlatform False (Inl []) [] ''alice@x.com'' ''pw1'' (sampleApp, emptyStorage) =
     (sampleApp\<lparr>error := Some ''Offline mode requires a prior successful online login.''\<rparr>,
      emptyStorage)"
    using offline_login_iff[where pf = samplePlatform and ls' = emptyStorage and e' = "''alice@x.com''"
        and p' = "''pw1''" and app = sampleApp and signIn = "Inl []" and rs' = "[]",
        THEN conjunct2, THEN conjunct2, THEN conjunct2, THEN conjunct1] 4
    by blast
  have 7: "login samplePlatform False (Inl []) [] ''alice@x.com'' ''pw1'' (sampleApp, ?ls) =
     (sampleApp\<lparr>user := Some sampleUser, error := None,
                 toasts := toasts sampleApp @ [(''Signed in (offline mode)'', Success)]\<rparr>, ?ls)"
    using offline_login_iff[where pf = samplePlatform and ls' = ?ls and e' = "''alice@x.com''"
        and p' = "''pw1''" and app = sampleApp and signIn = "Inl []" and rs' = "[]"
        and cu = sampleUser,
        THEN conjunct2, THEN conjunct2, THEN conjunct2, THEN conjunct2] 1
    by blast
  show ?thesis by (intro conjI b h 1 2 3 4 5 6 7)
qed

section \<open>The fallback of the digest\<close>

text \<open>
  Claim C10, as stated, fails where the subtle-crypto interface is missing: the digest
  function returns the password itself, but \<open>persistOfflineSession\<close> returns before
  writing, so the cache holds no digest at all.
\<close>

theorem plaintext_digest_without_subtle_counterexample:
  "hasSubtle (samplePlatform\<lparr>hasSubtle := False\<rparr>) = False \<and>
   hashWithSalt (samplePlatform\<lparr>hasSubtle := False\<rparr>) ''pw1'' [7, 2, 3] = ''pw1'' \<and>
   offlineSessionCache
     (persistOfflineSession (samplePlatform\<lparr>hasSubtle := False\<rparr>) [7, 2, 3] ''alice@x.com''
        ''pw1'' sampleUser emptyStorage) = None"
  by (simp add: hashWithSalt_def persistOfflineSession_def emptyStorage_def)

text \<open>
  Claim C10, amended. Without \<open>TextEncoder\<close> or without the subtle-crypto interface,
  \<open>hashWithSalt\<close> returns its input for every salt. In a browser that has the
  subtle-crypto interface and lacks \<open>TextEncoder\<close>, the cached digest is the plaintext
  password. Without the subtle-crypto interface nothing is cached. In either environment,
  verification against a session already in the cache compares the supplied password with
  the stored digest as strings.
\<close>

theorem hashWithSalt_fallback:
  "(\<not> hasTextEncoder pf \<or> \<not> hasSubtle pf \<longrightarrow> hashWithSalt pf v salt = v) \<and>
   (isBrowser pf \<and> hasSubtle pf \<and> \<not> hasTextEncoder pf \<longrightarrow>
      offlineSessionCache (persistOfflineSession pf rs e p u ls) =
        Some (Stored \<lparr>email_c = e, salt_c = uint8 rs, hash_c = p,
                      user_c = \<lparr>uid = uid u, email = orNull (email u),
                                displayName = orNull (displayName u)\<rparr>\<rparr>)) \<and>
   (\<not> hasSubtle pf \<longrightarrow> persistOfflineSession pf rs e p u ls = ls) \<and>
   (isBrowser pf \<and> (\<not> hasTextEncoder pf \<or> \<not> hasSubtle pf) \<and>
    offlineSessionCache ls = Some (Stored sess) \<longrightarrow>
      tryOfflineSessionLogin pf ls e' p' =
        (if email_c sess = e' \<and> p' = hash_c sess then Some (user_c sess) else None))"
proof -
  have 1: "hashWithSalt pf v salt = v" if "\<not> hasTextEncoder pf \<or> \<not> hasSubtle pf" for v salt
    using that by (auto simp: hashWithSalt_def)
  have 2: "offlineSessionCache (persistOfflineSession pf rs e p u ls) =
        Some (Stored \<lparr>email_c = e, salt_c = uint8 rs, hash_c = p,
                      user_c = \<lparr>uid = uid u, email = orNull (email u),
                                displayName = orNull (displayName u)\<rparr>\<rparr>)"
    if "isBrowser pf \<and> hasSubtle pf \<and> \<not> hasTextEncoder pf"
    using that by (simp add: persist_cache 1)
  have 3: "persistOfflineSession pf rs e p u ls = ls" if "\<not> hasSubtle pf"
    using that by (simp add: persistOfflineSession_def)
  have 4: "tryOfflineSessionLogin pf ls e' p' =
        (if email_c sess = e' \<and> p' = hash_c sess then Some (user_c sess) else None)"
    if "isBrowser pf \<and> (\<not> hasTextEncoder pf \<or> \<not> hasSubtle pf) \<and>
        offlineSessionCache ls = Some (Stored sess)"
    using that by (auto simp: tryOfflineSessionLogin_def 1 Let_def)
  show ?thesis using 1 2 3 4 by blast
qed

theorem hashWithSalt_fallback_witness:
  "\<not> hasTextEncoder (samplePlatform\<lparr>hasTextEncoder := False\<rparr>) \<and>
   isBrowser (samplePlatform\<lparr>hasTextEncoder := False\<rparr>) \<and>
   hasSubtle (samplePlatform\<lparr>hasTextEncoder := False\<rparr>) \<and>
   \<not> hasSubtle (samplePlatform\<lparr>hasSubtle := False\<rparr>) \<and>
   hashWithSalt (samplePlatform\<lparr>hasTextEncoder := False\<rparr>) ''pw1'' [7, 2, 3] = ''pw1'' \<and>
   offlineSessionCache
     (persistOfflineSession (samplePlatform\<lparr>hasTextEncoder := False\<rparr>) [7, 2, 3] ''alice@x.com''
        ''pw1'' sampleUser emptyStorage) =
     Some (Stored \<lparr>email_c = ''alice@x.com'', salt_c = [7, 2, 3], hash_c = ''pw1'',
                   user_c = sampleUser\<rparr>) \<and>
   persistOfflineSession (samplePlatform\<lparr>hasSubtle := False\<rparr>) [7, 2, 3] ''alice@x.com''
        ''pw1'' sampleUser emptyStorage = emptyStorage \<and>
   tryOfflineSessionLogin (samplePlatform\<lparr>hasTextEncoder := False\<rparr>)
     (emptyStorage\<lparr>offlineSessionCache :=
        Some (Stored \<lparr>email_c = ''alice@x.com'', salt_c = [7, 2, 3], hash_c = ''pw1'',
                      user_c = sampleUser\<rparr>)\<rparr>) ''alice@x.com'' ''pw1'' = Some sampleUser"
proof -
  let ?e = "samplePlatform\<lparr>hasTextEncoder := False\<rparr>"
  let ?n = "samplePlatform\<lparr>hasSubtle := False\<rparr>"
  let ?sess = "\<lparr>email_c = ''alice@x.com'', salt_c = [7, 2, 3], hash_c = ''pw1'', user_c = sampleUser\<rparr>"
  have a: "\<not> hasTextEncoder ?e" and b: "isBrowser ?e" and c: "hasSubtle ?e" and d: "\<not> hasSubtle ?n"
    by (simp_all add: samplePlatform_def)
  have u: "\<lparr>uid = uid sampleUser, email = orNull (email sampleUser),
            displayName = orNull (displayName sampleUser)\<rparr> = sampleUser"
    by (simp add: sampleUser_def orNull_def truthy_def)
  have s: "uint8 [7, 2, 3] = [7, 2, 3]" by (simp add: uint8_def)
  have 1: "hashWithSalt ?e ''pw1'' [7, 2, 3] = ''pw1''"
    using hashWithSalt_fallback[of ?e, THEN conjunct1] a by blast
  have 2: "offlineSessionCache (persistOfflineSession ?e [7, 2, 3] ''alice@x.com'' ''pw1'' sampleUser emptyStorage)
     = Some (Stored ?sess)"
    using hashWithSalt_fallback[of ?e _ _ "[7, 2, 3]" "''alice@x.com''" "''pw1''" sampleUser emptyStorage,
        THEN conjunct2, THEN conjunct1] a b c
    unfolding u s by blast
  have 3: "persistOfflineSession ?n [7, 2, 3] ''alice@x.com'' ''pw1'' sampleUser emptyStorage = emptyStorage"
    using hashWithSalt_fallback[of ?n, THEN conjunct2, THEN conjunct2, THEN conjunct1] d by blast
  have "tryOfflineSessionLogin ?e (emptyStorage\<lparr>offlineSessionCache := Some (Stored ?sess)\<rparr>) ''alice@x.com'' ''pw1''
      = (if email_c ?sess = ''alice@x.com'' \<and> ''pw1'' = hash_c ?sess then Some (user_c ?sess) else None)"
    using hashWithSalt_fallback[of ?e _ _ _ _ _ _ "emptyStorage\<lparr>offlineSessionCache := Some (Stored ?sess)\<rparr>" ?sess,
        THEN conjunct2, THEN conjunct2, THEN conjunct2] a b
    by simp
  then have 4: "tryOfflineSessionLogin ?e (emptyStorage\<lparr>offlineSessionCache := Some (Stored ?sess)\<rparr>) ''alice@x.com'' ''pw1''
      = Some sampleUser"
    by simp
  show ?thesis by (intro conjI a b c d 1 2 3 4)
qed

section \<open>Sale mutations\<close>

lemma applyPayload_frame:
  "id_sale (applyPayload p r) = id_sale r \<and> userId (applyPayload p r) = userId r \<and>
   userEmail (applyPayload p r) = userEmail r \<and> createdAt (applyPayload p r) = createdAt r"
  by (simp add: applyPayload_def)

lemma updateSale_Inr:
  "updateSale i u st = Inr st' \<longleftrightarrow>
     (\<exists>r. st i = Some r \<and> st' = st(i \<mapsto> applyPayload (mkPayload u) r))"
  by (auto simp: updateSale_def updateDoc_def split: option.splits)

lemma mkPayload_ignores:
  "mkPayload (u\<lparr>id_u := a, userId_u := b, userEmail_u := c, createdAt_u := d\<rparr>) = mkPayload u"
  by (simp add: mkPayload_def)

text \<open>
  Claim C9. An update that the store accepts keeps the set of stored identifiers, leaves
  every other record as it was, and in the record it addresses keeps the identifier, the
  owning user, the user's email and the creation timestamp: the record becomes the old one
  with the payload's fields (product, flavor, unit, price, total, payment mode, date and
  time) written over it. Values for the identifier, the owner, the email or the
  creation timestamp in the update are dropped by the allow-list. A rejected update is one
  for an identifier the store does not hold.
\<close>

theorem updateSale_frame:
  "(updateSale i u st = Inr st' \<longrightarrow>
      dom st' = dom st \<and>
      (\<forall>k r. st k = Some r \<longrightarrow>
         (\<exists>r'. st' k = Some r' \<and> id_sale r' = id_sale r \<and> userId r' = userId r \<and>
               userEmail r' = userEmail r \<and> createdAt r' = createdAt r \<and>
               (k \<noteq> i \<longrightarrow> r' = r) \<and>
               (k = i \<longrightarrow> r' = applyPayload (mkPayload u) r)))) \<and>
   updateSale i (u\<lparr>id_u := a, userId_u := b, userEmail_u := c, createdAt_u := d\<rparr>) st
     = updateSale i u st \<and>
   (updateSale i u st = Inl e \<longrightarrow> st i = None)"
proof -
  have a: "dom st' = dom st \<and>
      (\<forall>k r. st k = Some r \<longrightarrow>
         (\<exists>r'. st' k = Some r' \<and> id_sale r' = id_sale r \<and> userId r' = userId r \<and>
               userEmail r' = userEmail r \<and> createdAt r' = createdAt r \<and>
               (k \<noteq> i \<longrightarrow> r' = r) \<and> (k = i \<longrightarrow> r' = applyPayload (mkPayload u) r)))"
    if "updateSale i u st = Inr st'"
  proof -
    from that obtain r0 where r0: "st i = Some r0" and s: "st' = st(i \<mapsto> applyPayload (mkPayload u) r0)"
      by (auto simp: updateSale_Inr)
    have "dom st' = dom st" using r0 s by auto
    moreover have "\<exists>r'. st' k = Some r' \<and> id_sale r' = id_sale r \<and> userId r' = userId r \<and>
               userEmail r' = userEmail r \<and> createdAt r' = createdAt r \<and> (k \<noteq> i \<longrightarrow> r' = r) \<and>
               (k = i \<longrightarrow> r' = applyPayload (mkPayload u) r)"
      if "st k = Some r" for k r
      using that r0 s applyPayload_frame[of "mkPayload u" r0] by (cases "k = i") auto
    ultimately show ?thesis by blast
  qed
  have b: "st i = None" if "updateSale i u st = Inl e"
    using that by (auto simp: updateSale_def updateDoc_def split: option.splits)
  have c: "updateSale i (u\<lparr>id_u := a, userId_u := b, userEmail_u := c, createdAt_u := d\<rparr>) st
     = updateSale i u st"
    by (simp only: updateSale_def mkPayload_ignores)
  show ?thesis using a b c by blast
qed

theorem updateSale_frame_witness:
  "updateSale ''s1'' sampleUpdates [''s1'' \<mapsto> sampleSale ''s1'' (Some ''2024-03-05'') (Some ''10:22:00'') 850]
     = Inr [''s1'' \<mapsto> sampleSale ''s1'' (Some ''2024-03-05'') (Some ''10:22:00'') 850
              \<lparr>product := ''Ice Cream'', flavor := ''Vanilla'', unit := 2, price := 1200, total := 2400,
               paymentMode := Some ''Cash'', date := Some ''2024-03-06''\<rparr>] \<and>
   userId (sampleSale ''s1'' (Some ''2024-03-05'') (Some ''10:22:00'') 850
              \<lparr>product := ''Ice Cream'', flavor := ''Vanilla'', unit := 2, price := 1200, total := 2400,
               paymentMode := Some ''Cash'', date := Some ''2024-03-06''\<rparr>) = ''u1'' \<and>
   id_sale (sampleSale ''s1'' (Some ''2024-03-05'') (Some ''10:22:00'') 850
              \<lparr>product := ''Ice Cream'', flavor := ''Vanilla'', unit := 2, price := 1200, total := 2400,
               paymentMode := Some ''Cash'', date := Some ''2024-03-06''\<rparr>) = ''s1'' \<and>
   updateSale ''zz'' sampleUpdates [''s1'' \<mapsto> sampleSale ''s1'' (Some ''2024-03-05'') (Some ''10:22:00'') 850]
     = Inl ''Failed to update sale'' \<and>
   [''s1'' \<mapsto> sampleSale ''s1'' (Some ''2024-03-05'') (Some ''10:22:00'') 850] ''zz'' = None"
proof -
  let ?r = "sampleSale ''s1'' (Some ''2024-03-05'') (Some ''10:22:00'') 850"
  let ?r' = "?r\<lparr>product := ''Ice Cream'', flavor := ''Vanilla'', unit := 2, price := 1200, total := 2400,
               paymentMode := Some ''Cash'', date := Some ''2024-03-06''\<rparr>"
  have ap: "applyPayload (mkPayload sampleUpdates) ?r = ?r'"
    by (simp add: applyPayload_def mkPayload_def sampleUpdates_def setField_def setOptField_def
        sampleSale_def)
  have run: "updateSale ''s1'' sampleUpdates [''s1'' \<mapsto> ?r] = Inr [''s1'' \<mapsto> ?r']"
    by (simp add: updateSale_def updateDoc_def ap)
  have s: "[''s1'' \<mapsto> ?r] ''s1'' = Some ?r" by simp
  from updateSale_frame[of "''s1''" sampleUpdates "[''s1'' \<mapsto> ?r]" "[''s1'' \<mapsto> ?r']", THEN conjunct1] run s
  obtain x where "[''s1'' \<mapsto> ?r'] ''s1'' = Some x" and "id_sale x = id_sale ?r" and "userId x = userId ?r"
    by blast
  then have "id_sale ?r' = id_sale ?r" and "userId ?r' = userId ?r" by simp_all
  then have i: "id_sale ?r' = ''s1''" and o: "userId ?r' = ''u1''" by (simp_all add: sampleSale_def)
  have rej: "updateSale ''zz'' sampleUpdates [''s1'' \<mapsto> ?r] = Inl ''Failed to update sale''"
    by (simp add: updateSale_def updateDoc_def)
  have none: "[''s1'' \<mapsto> ?r] ''zz'' = None"
    using updateSale_frame[of "''zz''" sampleUpdates "[''s1'' \<mapsto> ?r]" _ _ _ _ _ "''Failed to update sale''",
        THEN conjunct2, THEN conjunct2] rej
    by blast
  show ?thesis by (intro conjI run o i rej none)
qed

section \<open>The form's total\<close>

lemma addSale_Inr:
  "addSale usr now newId n st = Inr st' \<Longrightarrow>
     \<exists>r. st' = st(newId \<mapsto> r) \<and> total r = total_n n \<and> price r = price_n n \<and> unit r = unit_n n"
  by (auto simp: addSale_def split: option.splits)

text \<open>
  Claim C8. Whatever the form holds, a record that a submission writes to the store
  (a record the store holds afterwards and did not hold before) has
  \<open>total = price * unit\<close>, the price being the selected flavor's and the unit the entered
  quantity; this holds for creation and for the edit flow. The store takes the total it is
  sent: \<open>addSale\<close> stores the total of its argument, whether or not it is the product.
\<close>

theorem form_total_is_price_times_unit:
  "(submitToStore usr now newId f st = Inr st' \<longrightarrow>
      (\<forall>k r. st' k = Some r \<and> st k \<noteq> Some r \<longrightarrow>
         total r = price r * unit r \<and> price r = formPrice f \<and> unit r = unit_s f)) \<and>
   (handleSubmit f = CallAddSale n \<longrightarrow>
      total_n n = price_n n * unit_n n \<and> price_n n = formPrice f \<and> unit_n n = unit_s f) \<and>
   (handleSubmit f = CallUpdateSale i u \<longrightarrow>
      total_u u = Some (formPrice f * unit_s f) \<and> price_u u = Some (formPrice f) \<and>
      unit_u u = Some (unit_s f)) \<and>
   (addSale usr now newId n' st = Inr st' \<longrightarrow> map_option total (st' newId) = Some (total_n n'))"
proof -
  have add: "total_n n = price_n n * unit_n n \<and> price_n n = formPrice f \<and> unit_n n = unit_s f"
    if "handleSubmit f = CallAddSale n" for n
    using that by (auto simp: handleSubmit_def formTotal_def split: if_splits option.splits)
  have upd: "total_u u = Some (formPrice f * unit_s f) \<and> price_u u = Some (formPrice f) \<and>
      unit_u u = Some (unit_s f)"
    if "handleSubmit f = CallUpdateSale i u" for i u
    using that by (auto simp: handleSubmit_def formTotal_def split: if_splits option.splits)
  have st: "total r = price r * unit r \<and> price r = formPrice f \<and> unit r = unit_s f"
    if run: "submitToStore usr now newId f st = Inr st'" and w: "st' k = Some r" "st k \<noteq> Some r" for k r
  proof (cases "handleSubmit f")
    case NoCall
    then show ?thesis using run w by (simp add: submitToStore_def)
  next
    case (CallUpdateSale i u)
    with run have "updateSale i u st = Inr st'" by (simp add: submitToStore_def)
    then obtain r0 where s: "st' = st(i \<mapsto> applyPayload (mkPayload u) r0)"
      by (auto simp: updateSale_Inr)
    with w have "k = i" and "r = applyPayload (mkPayload u) r0" by (auto split: if_splits)
    then show ?thesis using upd[OF CallUpdateSale]
      by (simp add: applyPayload_def mkPayload_def setField_def)
  next
    case (CallAddSale n)
    with run have "addSale usr now newId n st = Inr st'" by (simp add: submitToStore_def)
    from addSale_Inr[OF this] obtain r1 where s: "st' = st(newId \<mapsto> r1)"
      and v: "total r1 = total_n n" "price r1 = price_n n" "unit r1 = unit_n n" by blast
    with w have "r = r1" by (auto split: if_splits)
    then show ?thesis using add[OF CallAddSale] v by simp
  qed
  have raw: "map_option total (st' newId) = Some (total_n n')"
    if "addSale usr now newId n' st = Inr st'"
    using addSale_Inr[OF that] by auto
  show ?thesis using add upd st raw by blast
qed

theorem form_total_is_price_times_unit_witness:
  "submitToStore (Some sampleUser) sampleClock ''s9'' sampleForm Map.empty =
     Inr [''s9'' \<mapsto> \<lparr>id_sale = ''s9'', userId = ''u1'', userEmail = Some ''alice@x.com'',
                      product = ''Yoghurt'', flavor = ''Mango'', unit = 3, price = 970, total = 2910,
                      paymentMode = Some ''Cash'', date = Some ''2024-03-05'',
                      time = Some ''10:22:00'',
                      createdAt = Some \<lparr>getFullYear = 2024, getMonth = 2, getDate = 5\<rparr>\<rparr>] \<and>
   submitToStore (Some sampleUser) sampleClock ''s9''
       (sampleForm\<lparr>editingSale := Some (sampleSale ''s1'' (Some ''2024-03-01'') None 850)\<rparr>)
       [''s1'' \<mapsto> sampleSale ''s1'' (Some ''2024-03-01'') None 850] =
     Inr [''s1'' \<mapsto> sampleSale ''s1'' (Some ''2024-03-01'') None 850
            \<lparr>product := ''Yoghurt'', flavor := ''Mango'', unit := 3, price := 970, total := 2910,
             paymentMode := Some ''Cash''\<rparr>] \<and>
   formPrice sampleForm * unit_s sampleForm = 2910 \<and>
   handleSubmit sampleForm =
     CallAddSale \<lparr>product_n = ''Yoghurt'', flavor_n = ''Mango'', unit_n = 3, price_n = 970,
                  total_n = 2910, paymentMode_n = Some ''Cash''\<rparr> \<and>
   addSale (Some sampleUser) sampleClock ''s9''
       \<lparr>product_n = ''Yoghurt'', flavor_n = ''Mango'', unit_n = 3, price_n = 970, total_n = 99,
        paymentMode_n = None\<rparr> Map.empty =
     Inr [''s9'' \<mapsto> \<lparr>id_sale = ''s9'', userId = ''u1'', userEmail = Some ''alice@x.com'',
                      product = ''Yoghurt'', flavor = ''Mango'', unit = 3, price = 970, total = 99,
                      paymentMode = Some ''POS'', date = Some ''2024-03-05'',
                      time = Some ''10:22:00'',
                      createdAt = Some \<lparr>getFullYear = 2024, getMonth = 2, getDate = 5\<rparr>\<rparr>]"
proof -
  let ?r = "\<lparr>id_sale = ''s9'', userId = ''u1'', userEmail = Some ''alice@x.com'',
                      product = ''Yoghurt'', flavor = ''Mango'', unit = 3, price = 970, total = formTotal sampleForm,
                      paymentMode = Some ''Cash'', date = Some ''2024-03-05'',
                      time = Some ''10:22:00'',
                      createdAt = Some \<lparr>getFullYear = 2024, getMonth = 2, getDate = 5\<rparr>\<rparr>"
  let ?old = "sampleSale ''s1'' (Some ''2024-03-01'') None 850"
  let ?ed = "sampleForm\<lparr>editingSale := Some ?old\<rparr>"
  let ?new = "?old\<lparr>product := ''Yoghurt'', flavor := ''Mango'', unit := 3, price := 970,
                 total := formTotal ?ed, paymentMode := Some ''Cash''\<rparr>"
  have p: "formPrice sampleForm = 970"
    by (simp add: formPrice_def sampleForm_def FALLBACK_PRODUCTS_def)
  have pe: "formPrice ?ed = 970"
    by (simp add: formPrice_def sampleForm_def FALLBACK_PRODUCTS_def)
  have v: "isValid sampleForm" and ve: "isValid ?ed" by (simp_all add: isValid_def sampleForm_def)
  have fs: "editingSale sampleForm = None" "product_s sampleForm = ''Yoghurt''"
    "flavor_s sampleForm = ''Mango''" "unit_s sampleForm = 3" "paymentMode_s sampleForm = ''Cash''"
    by (simp_all add: sampleForm_def)
  have run: "submitToStore (Some sampleUser) sampleClock ''s9'' sampleForm Map.empty = Inr [''s9'' \<mapsto> ?r]"
    by (simp add: submitToStore_def handleSubmit_def addSale_def v p fs sampleUser_def
        sampleClock_def orNull_def truthy_def orDefault_def orEmpty_def)
  have "[''s9'' \<mapsto> ?r] ''s9'' = Some ?r \<and> Map.empty ''s9'' \<noteq> Some ?r" by simp
  with form_total_is_price_times_unit[of "Some sampleUser" sampleClock "''s9''" sampleForm Map.empty
      "[''s9'' \<mapsto> ?r]", THEN conjunct1] run
  have "total ?r = price ?r * unit ?r \<and> price ?r = formPrice sampleForm \<and> unit ?r = unit_s sampleForm"
    by blast
  then have t: "formTotal sampleForm = 2910" and t': "formPrice sampleForm * unit_s sampleForm = 2910"
    by simp_all
  have ids: "id_sale ?old = ''s1''" "date ?old = Some ''2024-03-01''" "time ?old = None"
    by (simp_all add: sampleSale_def)
  have rune: "submitToStore (Some sampleUser) sampleClock ''s9'' ?ed [''s1'' \<mapsto> ?old] = Inr [''s1'' \<mapsto> ?new]"
    by (simp add: submitToStore_def handleSubmit_def updateSale_def updateDoc_def ve pe fs ids
        applyPayload_def mkPayload_def setField_def setOptField_def)
       (simp add: sampleSale_def)
  have "[''s1'' \<mapsto> ?new] ''s1'' = Some ?new \<and> [''s1'' \<mapsto> ?old] ''s1'' \<noteq> Some ?new"
    by (simp add: sampleSale_def)
  with form_total_is_price_times_unit[of "Some sampleUser" sampleClock "''s9''" ?ed "[''s1'' \<mapsto> ?old]"
      "[''s1'' \<mapsto> ?new]", THEN conjunct1] rune
  have "total ?new = price ?new * unit ?new" by blast
  then have te: "formTotal ?ed = 2910" by simp
  have hs: "handleSubmit sampleForm =
     CallAddSale \<lparr>product_n = ''Yoghurt'', flavor_n = ''Mango'', unit_n = 3, price_n = 970,
                  total_n = formTotal sampleForm, paymentMode_n = Some ''Cash''\<rparr>"
    by (simp add: handleSubmit_def v p fs)
  from form_total_is_price_times_unit[of _ _ _ sampleForm, THEN conjunct2, THEN conjunct1] hs
  have "total_n \<lparr>product_n = ''Yoghurt'', flavor_n = ''Mango'', unit_n = 3, price_n = 970,
                  total_n = formTotal sampleForm, paymentMode_n = Some ''Cash''\<rparr>
      = price_n \<lparr>product_n = ''Yoghurt'', flavor_n = ''Mango'', unit_n = 3, price_n = 970,
                  total_n = formTotal sampleForm, paymentMode_n = Some ''Cash''\<rparr>
        * unit_n \<lparr>product_n = ''Yoghurt'', flavor_n = ''Mango'', unit_n = 3, price_n = 970,
                  total_n = formTotal sampleForm, paymentMode_n = Some ''Cash''\<rparr>"
    by blast
  then have hs': "handleSubmit sampleForm =
     CallAddSale \<lparr>product_n = ''Yoghurt'', flavor_n = ''Mango'', unit_n = 3, price_n = 970,
                  total_n = 2910, paymentMode_n = Some ''Cash''\<rparr>"
    using hs by simp
  let ?odd = "\<lparr>product_n = ''Yoghurt'', flavor_n = ''Mango'', unit_n = 3, price_n = 970, total_n = 99,
        paymentMode_n = None\<rparr>"
  let ?w = "\<lparr>id_sale = ''s9'', userId = ''u1'', userEmail = Some ''alice@x.com'',
                      product = ''Yoghurt'', flavor = ''Mango'', unit = 3, price = 970,
                      total = total_n ?odd,
                      paymentMode = Some ''POS'', date = Some ''2024-03-05'',
                      time = Some ''10:22:00'',
                      createdAt = Some \<lparr>getFullYear = 2024, getMonth = 2, getDate = 5\<rparr>\<rparr>"
  have raw: "addSale (Some sampleUser) sampleClock ''s9'' ?odd Map.empty = Inr [''s9'' \<mapsto> ?w]"
    by (simp add: addSale_def sampleUser_def sampleClock_def orNull_def truthy_def orDefault_def
        orEmpty_def)
  from form_total_is_price_times_unit[of "Some sampleUser" sampleClock "''s9''" _ Map.empty
      "[''s9'' \<mapsto> ?w]" _ _ _ ?odd, THEN conjunct2, THEN conjunct2, THEN conjunct2] raw
  have "map_option total ([''s9'' \<mapsto> ?w] ''s9'') = Some (total_n ?odd)" by blast
  then have raw': "addSale (Some sampleUser) sampleClock ''s9'' ?odd Map.empty =
     Inr [''s9'' \<mapsto> \<lparr>id_sale = ''s9'', userId = ''u1'', userEmail = Some ''alice@x.com'',
                      product = ''Yoghurt'', flavor = ''Mango'', unit = 3, price = 970, total = 99,
                      paymentMode = Some ''POS'', date = Some ''2024-03-05'',
                      time = Some ''10:22:00'',
                      createdAt = Some \<lparr>getFullYear = 2024, getMonth = 2, getDate = 5\<rparr>\<rparr>]"
    using raw by simp
  show ?thesis using run rune t t' te hs' raw' by simp
qed

section \<open>Rounding to a double\<close>

lemma roundHalfEven_near: "\<bar>rat_of_int (roundHalfEven y) - y\<bar> \<le> 1 / 2"
proof -
  define f where "f = \<lfloor>y\<rfloor>"
  have lo: "rat_of_int f \<le> y" and hi: "y < rat_of_int f + 1"
    unfolding f_def by linarith+
  consider "y - of_int f < 1 / 2" | "1 / 2 < y - of_int f" | "y - of_int f = 1 / 2"
    by linarith
  then show ?thesis
  proof cases
    case 1
    then have e: "roundHalfEven y = f" by (simp add: roundHalfEven_def f_def Let_def)
    have "rat_of_int f - y \<le> 1 / 2" "- (rat_of_int f - y) \<le> 1 / 2" using 1 lo by linarith+
    then show ?thesis unfolding e by (rule abs_leI)
  next
    case 2
    then have e: "roundHalfEven y = f + 1" by (simp add: roundHalfEven_def f_def Let_def)
    have s: "rat_of_int (f + 1) = rat_of_int f + 1" by simp
    have "rat_of_int (f + 1) - y \<le> 1 / 2" "- (rat_of_int (f + 1) - y) \<le> 1 / 2"
      unfolding s using 2 hi by linarith+
    then show ?thesis unfolding e by (rule abs_leI)
  next
    case 3
    then have e: "roundHalfEven y = f \<or> roundHalfEven y = f + 1"
      by (simp add: roundHalfEven_def f_def Let_def)
    have "rat_of_int f - y \<le> 1 / 2" "- (rat_of_int f - y) \<le> 1 / 2"
      "rat_of_int (f + 1) - y \<le> 1 / 2" "- (rat_of_int (f + 1) - y) \<le> 1 / 2"
      unfolding of_int_add of_int_1 using 3 by linarith+
    then have "\<bar>rat_of_int f - y\<bar> \<le> 1 / 2" "\<bar>rat_of_int (f + 1) - y\<bar> \<le> 1 / 2"
      by (simp_all only: abs_le_iff)
    then show ?thesis using e by auto
  qed
qed

lemma log2floor_bounds:
  assumes "0 < x"
  shows "2 powi (log2floor x) \<le> x \<and> x < 2 powi (log2floor x + 1)"
proof -
  obtain a b where q: "quotient_of x = (a, b)" by (cases "quotient_of x")
  have b: "0 < b" using q by (rule quotient_of_denom_pos)
  have x: "x = rat_of_int a / rat_of_int b" using q by (rule quotient_of_div)
  have a: "0 < a" using assms b x by (simp add: zero_less_divide_iff)
  define la where "la = bitlen a"
  define lb where "lb = bitlen b"
  have la1: "1 \<le> la" and lb1: "1 \<le> lb"
    using a b bitlen_eq_zero_iff[of a] bitlen_eq_zero_iff[of b] bitlen_nonneg[of a] bitlen_nonneg[of b]
    unfolding la_def lb_def by linarith+
  have ba: "2 ^ nat (la - 1) \<le> a" "a < 2 ^ nat la" and bb: "2 ^ nat (lb - 1) \<le> b" "b < 2 ^ nat lb"
    using bitlen_bounds[OF a] bitlen_bounds[OF b] unfolding la_def lb_def by simp_all
  have ra: "(2::rat) powi (la - 1) \<le> of_int a" "rat_of_int a < 2 powi la"
  proof -
    have "rat_of_int (2 ^ nat (la - 1)) \<le> of_int a" using ba(1) by (simp only: of_int_le_iff)
    then show "(2::rat) powi (la - 1) \<le> of_int a" using la1 by (simp add: power_int_nonneg_exp)
    have "rat_of_int a < of_int (2 ^ nat la)" using ba(2) by (simp only: of_int_less_iff)
    then show "rat_of_int a < 2 powi la" using la1 by (simp add: power_int_nonneg_exp)
  qed
  have rb: "(2::rat) powi (lb - 1) \<le> of_int b" "rat_of_int b < 2 powi lb"
  proof -
    have "rat_of_int (2 ^ nat (lb - 1)) \<le> of_int b" using bb(1) by (simp only: of_int_le_iff)
    then show "(2::rat) powi (lb - 1) \<le> of_int b" using lb1 by (simp add: power_int_nonneg_exp)
    have "rat_of_int b < of_int (2 ^ nat lb)" using bb(2) by (simp only: of_int_less_iff)
    then show "rat_of_int b < 2 powi lb" using lb1 by (simp add: power_int_nonneg_exp)
  qed
  have bpos: "0 < rat_of_int b" using b by simp
  have up: "x < 2 powi (la - lb + 1)"
  proof -
    have "rat_of_int a < 2 powi la" by (rule ra(2))
    also have "(2::rat) powi la = 2 powi (la - lb + 1) * 2 powi (lb - 1)"
      by (simp flip: power_int_add)
    also have "\<dots> \<le> 2 powi (la - lb + 1) * of_int b"
      using rb(1) by (intro mult_left_mono) simp_all
    finally show ?thesis using bpos by (simp add: x pos_divide_less_eq)
  qed
  have low: "2 powi (la - lb - 1) < x"
  proof -
    have "(2::rat) powi (la - lb - 1) * of_int b < 2 powi (la - lb - 1) * 2 powi lb"
      using rb(2) by (intro mult_strict_left_mono) simp_all
    also have "\<dots> = 2 powi (la - 1)"
      by (simp flip: power_int_add)
    also have "\<dots> \<le> of_int a" by (rule ra(1))
    finally show ?thesis using bpos by (simp add: x pos_less_divide_eq)
  qed
  show ?thesis
  proof (cases "2 powi (la - lb) \<le> x")
    case True
    then have "log2floor x = la - lb"
      by (simp add: log2floor_def q la_def lb_def)
    then show ?thesis using True up by simp
  next
    case False
    then have l: "log2floor x = la - lb - 1"
      by (simp add: log2floor_def q la_def lb_def)
    have "x < 2 powi (la - lb)" using False by simp
    then show ?thesis using low unfolding l by simp
  qed
qed

lemma roundDouble_shape:
  assumes "x \<noteq> 0"
  obtains m e where "roundDouble x = sgn x * (rat_of_int m * 2 powi e)"
    and "0 < m" and "\<bar>rat_of_int m * 2 powi e - \<bar>x\<bar>\<bar> \<le> \<bar>x\<bar> / 2 ^ 53"
proof -
  define e where "e = log2floor \<bar>x\<bar> - 52"
  define P where "P = (2::rat) powi e"
  define y where "y = \<bar>x\<bar> / P"
  define m where "m = roundHalfEven y"
  have P: "0 < P" by (simp add: P_def)
  have ax: "0 < \<bar>x\<bar>" using assms by simp
  have "2 powi (log2floor \<bar>x\<bar>) \<le> \<bar>x\<bar>" using log2floor_bounds[OF ax] by blast
  moreover have "(2::rat) powi (log2floor \<bar>x\<bar>) = P * 2 ^ 52"
  proof -
    have "log2floor \<bar>x\<bar> = e + 52" by (simp add: e_def)
    then show ?thesis by (simp add: P_def power_int_add)
  qed
  ultimately have lo: "P * 2 ^ 52 \<le> \<bar>x\<bar>" by simp
  then have ylo: "2 ^ 52 \<le> y" using P by (simp add: y_def pos_le_divide_eq mult.commute)
  have near: "\<bar>rat_of_int m - y\<bar> \<le> 1 / 2" unfolding m_def by (rule roundHalfEven_near)
  then have "y - 1 / 2 \<le> rat_of_int m" by linarith
  moreover have "(1::rat) \<le> 2 ^ 52" by simp
  ultimately have "0 < rat_of_int m" using ylo by linarith
  then have mpos: "0 < m" by simp
  have xy: "\<bar>x\<bar> = y * P" using P by (simp add: y_def)
  have "\<bar>rat_of_int m * P - \<bar>x\<bar>\<bar> = \<bar>rat_of_int m - y\<bar> * P"
    unfolding xy using P by (simp add: abs_mult flip: left_diff_distrib)
  also have "\<dots> \<le> 1 / 2 * P" using near P by (intro mult_right_mono) simp_all
  also have "\<dots> \<le> \<bar>x\<bar> / 2 ^ 53"
    using lo by (simp add: field_simps)
  finally have err: "\<bar>rat_of_int m * P - \<bar>x\<bar>\<bar> \<le> \<bar>x\<bar> / 2 ^ 53" .
  have "roundDouble x = sgn x * (rat_of_int m * P)"
    using assms by (simp add: roundDouble_def Let_def e_def m_def y_def P_def)
  then show thesis using mpos err that unfolding P_def by blast
qed

lemma roundDouble_error: "\<bar>roundDouble x - x\<bar> \<le> \<bar>x\<bar> / 2 ^ 53"
proof (cases "x = 0")
  case True
  then show ?thesis by (simp add: roundDouble_def)
next
  case False
  then obtain m e where r: "roundDouble x = sgn x * (rat_of_int m * 2 powi e)"
    and err: "\<bar>rat_of_int m * 2 powi e - \<bar>x\<bar>\<bar> \<le> \<bar>x\<bar> / 2 ^ 53"
    by (rule roundDouble_shape)
  have "x = sgn x * \<bar>x\<bar>" by (simp add: sgn_mult_abs)
  then have "roundDouble x - x = sgn x * (rat_of_int m * 2 powi e - \<bar>x\<bar>)"
    unfolding r by (simp add: right_diff_distrib)
  then have "\<bar>roundDouble x - x\<bar> = \<bar>rat_of_int m * 2 powi e - \<bar>x\<bar>\<bar>"
    using False by (simp add: abs_mult abs_sgn_eq)
  then show ?thesis using err by simp
qed

lemma roundDouble_nonneg_iff: "(0 \<le> roundDouble x) = (0 \<le> x)"
proof (cases "x = 0")
  case True
  then show ?thesis by (simp add: roundDouble_def)
next
  case False
  then obtain m e where r: "roundDouble x = sgn x * (rat_of_int m * 2 powi e)" and m: "0 < m"
    by (rule roundDouble_shape)
  define Q where "Q = rat_of_int m * 2 powi e"
  have Q: "0 < Q" using m by (simp add: Q_def)
  have r': "roundDouble x = sgn x * Q" unfolding r Q_def ..
  show ?thesis
  proof (cases "0 < x")
    case True
    then show ?thesis using Q by (simp add: r')
  next
    case False
    then have "x < 0" using \<open>x \<noteq> 0\<close> by simp
    then show ?thesis using Q by (simp add: r')
  qed
qed

section \<open>Relative error\<close>

lemma relerr_scale:
  fixes x y k d :: rat
  assumes "\<bar>y - x\<bar> \<le> d * \<bar>x\<bar>"
  shows "\<bar>k * y - k * x\<bar> \<le> d * \<bar>k * x\<bar>"
proof -
  have "k * y - k * x = k * (y - x)" by (simp add: right_diff_distrib)
  then have "\<bar>k * y - k * x\<bar> = \<bar>k\<bar> * \<bar>y - x\<bar>" by (simp only: abs_mult)
  also have "\<dots> \<le> \<bar>k\<bar> * (d * \<bar>x\<bar>)" using assms by (intro mult_left_mono) simp_all
  finally show ?thesis by (simp add: abs_mult mult.left_commute)
qed

lemma relerr_round:
  assumes "\<bar>y - x\<bar> \<le> d * \<bar>x\<bar>" and "0 \<le> d"
  shows "\<bar>roundDouble y - x\<bar> \<le> (d + 1 / 2 ^ 53 + d * (1 / 2 ^ 53)) * \<bar>x\<bar>"
proof -
  define u :: rat where "u = 1 / 2 ^ 53"
  have u: "0 \<le> u" by (simp add: u_def)
  have "\<bar>y\<bar> \<le> \<bar>x\<bar> + \<bar>y - x\<bar>" by linarith
  then have y: "\<bar>y\<bar> \<le> (1 + d) * \<bar>x\<bar>" using assms(1) by (simp add: algebra_simps)
  have "\<bar>roundDouble y - y\<bar> \<le> u * \<bar>y\<bar>" using roundDouble_error[of y] by (simp add: u_def)
  also have "\<dots> \<le> u * ((1 + d) * \<bar>x\<bar>)" using y u by (intro mult_left_mono)
  finally have r: "\<bar>roundDouble y - y\<bar> \<le> u * ((1 + d) * \<bar>x\<bar>)" .
  have "\<bar>roundDouble y - x\<bar> \<le> \<bar>roundDouble y - y\<bar> + \<bar>y - x\<bar>" by linarith
  also have "\<dots> \<le> u * ((1 + d) * \<bar>x\<bar>) + d * \<bar>x\<bar>" using r assms(1) by linarith
  also have "\<dots> = (d + u + d * u) * \<bar>x\<bar>" by (simp add: algebra_simps)
  finally show ?thesis by (simp add: u_def)
qed

lemma percent_error:
  assumes "p \<noteq> 0"
  shows "\<bar>fmul (fdiv (fsub c p) p) 100 - 100 * (c - p) / p\<bar> \<le> \<bar>100 * (c - p) / p\<bar> / 2 ^ 51"
proof -
  define u :: rat where "u = 1 / 2 ^ 53"
  define d2 where "d2 = u + u + u * u"
  define d3 where "d3 = d2 + u + d2 * u"
  have u: "0 \<le> u" by (simp add: u_def)
  have d2: "0 \<le> d2" using u by (simp add: d2_def)
  have 1: "\<bar>fsub c p - (c - p)\<bar> \<le> u * \<bar>c - p\<bar>"
    using roundDouble_error[of "c - p"] by (simp add: fsub_def u_def)
  have "\<bar>(1 / p) * fsub c p - (1 / p) * (c - p)\<bar> \<le> u * \<bar>(1 / p) * (c - p)\<bar>"
    using 1 by (rule relerr_scale)
  then have "\<bar>fsub c p / p - (c - p) / p\<bar> \<le> u * \<bar>(c - p) / p\<bar>" by simp
  from relerr_round[OF this u]
  have 2: "\<bar>fdiv (fsub c p) p - (c - p) / p\<bar> \<le> d2 * \<bar>(c - p) / p\<bar>"
    by (simp add: fdiv_def d2_def u_def)
  have "\<bar>100 * fdiv (fsub c p) p - 100 * ((c - p) / p)\<bar> \<le> d2 * \<bar>100 * ((c - p) / p)\<bar>"
    using 2 by (rule relerr_scale)
  then have "\<bar>fdiv (fsub c p) p * 100 - 100 * (c - p) / p\<bar> \<le> d2 * \<bar>100 * (c - p) / p\<bar>"
    by (simp add: mult.commute)
  from relerr_round[OF this d2]
  have 3: "\<bar>fmul (fdiv (fsub c p) p) 100 - 100 * (c - p) / p\<bar> \<le> d3 * \<bar>100 * (c - p) / p\<bar>"
    by (simp add: fmul_def d3_def u_def)
  have "d3 \<le> 1 / 2 ^ 51" by (simp add: d3_def d2_def u_def)
  then have "d3 * \<bar>100 * (c - p) / p\<bar> \<le> 1 / 2 ^ 51 * \<bar>100 * (c - p) / p\<bar>"
    by (intro mult_right_mono) simp_all
  with 3 show ?thesis by simp
qed

section \<open>Delta classification\<close>

lemma toFixed1_near:
  assumes "0 \<le> x"
  shows "\<exists>n. toFixed1 x = showNat (n div 10) @ ''.'' @ showNat (n mod 10) \<and>
           \<bar>rat_of_nat n / 10 - x\<bar> \<le> 1 / 20"
proof -
  define k where "k = \<lfloor>x * 10 + 1 / 2\<rfloor>"
  have nn: "0 \<le> k" using assms by (simp add: k_def)
  then have n: "rat_of_nat (nat k) = of_int k"
    by simp
  have lo: "of_int k \<le> x * 10 + 1 / 2" and hi: "x * 10 + 1 / 2 < of_int k + 1"
    unfolding k_def by linarith+
  have "rat_of_int k / 10 - x \<le> 1 / 20" and "x - rat_of_int k / 10 \<le> 1 / 20"
    using lo hi by linarith+
  then have "\<bar>rat_of_int k / 10 - x\<bar> \<le> 1 / 20"
    by (intro abs_leI) linarith+
  then have "\<bar>rat_of_nat (nat k) / 10 - x\<bar> \<le> 1 / 20"
    unfolding n .
  moreover have "toFixed1 x = showNat (nat k div 10) @ ''.'' @ showNat (nat k mod 10)"
    by (simp add: toFixed1_def Let_def k_def)
  ultimately show ?thesis by blast
qed

lemma deltaCopy_percent:
  assumes "0 < p"
  shows "deltaCopy c p =
     (if p \<le> c then Up else Down,
      '' '' @ toFixed1 \<bar>fmul (fdiv (fsub (rat_of_int c) (rat_of_int p)) (rat_of_int p)) 100\<bar>
        @ ''% vs last month'')"
proof -
  have "(0 \<le> fsub (rat_of_int c) (rat_of_int p)) = (p \<le> c)"
    by (simp add: fsub_def roundDouble_nonneg_iff)
  then show ?thesis using assms by (simp add: deltaCopy_def Let_def)
qed

lemma deltaCopy_near:
  assumes "0 < p"
  shows "\<exists>n. deltaCopy c p =
             (if p \<le> c then Up else Down,
              '' '' @ showNat (n div 10) @ ''.'' @ showNat (n mod 10) @ ''% vs last month'') \<and>
           \<bar>rat_of_nat n / 10 - \<bar>100 * (rat_of_int c - rat_of_int p) / rat_of_int p\<bar>\<bar>
             \<le> 1 / 20 + \<bar>100 * (rat_of_int c - rat_of_int p) / rat_of_int p\<bar> / 2 ^ 51"
proof -
  define t where "t = 100 * (rat_of_int c - rat_of_int p) / rat_of_int p"
  define a where "a = fmul (fdiv (fsub (rat_of_int c) (rat_of_int p)) (rat_of_int p)) 100"
  have "rat_of_int p \<noteq> 0" using assms by simp
  then have e: "\<bar>a - t\<bar> \<le> \<bar>t\<bar> / 2 ^ 51"
    unfolding a_def t_def by (rule percent_error)
  have "\<bar>\<bar>a\<bar> - \<bar>t\<bar>\<bar> \<le> \<bar>a - t\<bar>" by (rule abs_triangle_ineq3)
  with e have e': "\<bar>\<bar>a\<bar> - \<bar>t\<bar>\<bar> \<le> \<bar>t\<bar> / 2 ^ 51" by linarith
  obtain n where n: "toFixed1 \<bar>a\<bar> = showNat (n div 10) @ ''.'' @ showNat (n mod 10)"
    and r: "\<bar>rat_of_nat n / 10 - \<bar>a\<bar>\<bar> \<le> 1 / 20"
    using toFixed1_near[of "\<bar>a\<bar>"] by auto
  have "\<bar>rat_of_nat n / 10 - \<bar>t\<bar>\<bar> \<le> \<bar>rat_of_nat n / 10 - \<bar>a\<bar>\<bar> + \<bar>\<bar>a\<bar> - \<bar>t\<bar>\<bar>" by linarith
  with r e' have "\<bar>rat_of_nat n / 10 - \<bar>t\<bar>\<bar> \<le> 1 / 20 + \<bar>t\<bar> / 2 ^ 51" by linarith
  moreover have "deltaCopy c p =
             (if p \<le> c then Up else Down,
              '' '' @ showNat (n div 10) @ ''.'' @ showNat (n mod 10) @ ''% vs last month'')"
    unfolding deltaCopy_percent[OF assms] a_def[symmetric] n by simp
  ultimately show ?thesis unfolding t_def by blast
qed

text \<open>
  Claim C3, as stated, fails on its own examples. For the totals 1000 then 1500 the copy is
  the up marker and the text \<open>50.0%\<close>, and for 1000 then 500 the down marker and the
  same text: the direction is in the marker and no sign is printed, so neither
  \<open>+50.0%\<close> nor \<open>-50.0%\<close> is produced. The number printed is that of the double
  computation and not the exact quotient: for 8000 then 10300 the copy reads 28.7, where
  \<open>100 * (c - p) / p\<close> is 28.75.
\<close>

theorem deltaCopy_signed_percent_counterexample:
  "deltaCopy 1500 1000 = (Up, '' 50.0% vs last month'') \<and>
   CHR ''+'' \<notin> set (snd (deltaCopy 1500 1000)) \<and>
   deltaCopy 500 1000 = (Down, '' 50.0% vs last month'') \<and>
   CHR ''-'' \<notin> set (snd (deltaCopy 500 1000)) \<and>
   deltaCopy 10300 8000 = (Up, '' 28.7% vs last month'') \<and>
   100 * (rat_of_int 10300 - rat_of_int 8000) / rat_of_int 8000 = 115 / 4"
proof -
  have 1: "deltaCopy 1500 1000 = (Up, '' 50.0% vs last month'')"
    by code_simp
  have 2: "deltaCopy 500 1000 = (Down, '' 50.0% vs last month'')"
    by code_simp
  have 3: "deltaCopy 10300 8000 = (Up, '' 28.7% vs last month'')"
    by code_simp
  have 4: "100 * (rat_of_int 10300 - rat_of_int 8000) / rat_of_int 8000 = 115 / 4"
    by simp
  have 5: "CHR ''+'' \<notin> set (snd (deltaCopy 1500 1000))"
    unfolding 1 by simp
  have 6: "CHR ''-'' \<notin> set (snd (deltaCopy 500 1000))"
    unfolding 2 by simp
  show ?thesis by (intro conjI 1 2 3 4 5 6)
qed

text \<open>
  Claim C3, amended. With the previous and the current month's totals both zero the copy
  is the neutral one (a dash); with the previous zero and the current positive it is the
  qualitative one (up, ``New''), in which nothing is divided. With the previous total
  positive (both totals being integers that doubles hold exactly) the copy is a direction
  marker, up when the current total is at least the previous and down otherwise, followed
  by the unsigned magnitude of the percentage change as the double computation
  \<open>((c - p) / p) * 100\<close> gives it, printed with one decimal: a number of tenths within
  a twentieth, plus a relative \<open>2^-51\<close>, of \<open>|100 * (c - p) / p|\<close>. The totals 1000
  then 1500 give up 50.0\%, 1000 then 500 give down 50.0\%, and 8000 then 10300 give up
  28.7\%. (\<open>deltaCopy\<close> takes the current total first.)
\<close>

theorem deltaCopy_marker_and_magnitude:
  "deltaCopy 0 0 = (Dash, '' vs last month'') \<and>
   (0 < c \<longrightarrow> deltaCopy c 0 = (Up, '' New vs last month'')) \<and>
   (0 < p \<and> safeInteger c \<and> safeInteger p \<longrightarrow>
      deltaCopy c p =
        (if p \<le> c then Up else Down,
         '' '' @ toFixed1 \<bar>fmul (fdiv (fsub (rat_of_int c) (rat_of_int p)) (rat_of_int p)) 100\<bar>
           @ ''% vs last month'')) \<and>
   (0 < p \<and> safeInteger c \<and> safeInteger p \<longrightarrow>
      (\<exists>n. deltaCopy c p =
             (if p \<le> c then Up else Down,
              '' '' @ showNat (n div 10) @ ''.'' @ showNat (n mod 10) @ ''% vs last month'') \<and>
           \<bar>rat_of_nat n / 10 - \<bar>100 * (rat_of_int c - rat_of_int p) / rat_of_int p\<bar>\<bar>
             \<le> 1 / 20 + \<bar>100 * (rat_of_int c - rat_of_int p) / rat_of_int p\<bar> / 2 ^ 51)) \<and>
   deltaCopy 500 0 = (Up, '' New vs last month'') \<and>
   deltaCopy 1500 1000 = (Up, '' 50.0% vs last month'') \<and>
   deltaCopy 500 1000 = (Down, '' 50.0% vs last month'') \<and>
   deltaCopy 10300 8000 = (Up, '' 28.7% vs last month'')"
proof -
  have 1: "deltaCopy 0 0 = (Dash, '' vs last month'')"
    by (simp add: deltaCopy_def)
  have 2: "deltaCopy c 0 = (Up, '' New vs last month'')" if "0 < c"
    using that by (simp add: deltaCopy_def)
  have 3: "deltaCopy c p =
        (if p \<le> c then Up else Down,
         '' '' @ toFixed1 \<bar>fmul (fdiv (fsub (rat_of_int c) (rat_of_int p)) (rat_of_int p)) 100\<bar>
           @ ''% vs last month'')"
    if "0 < p \<and> safeInteger c \<and> safeInteger p"
    using that deltaCopy_percent[of p c] by blast
  have 4: "\<exists>n. deltaCopy c p =
             (if p \<le> c then Up else Down,
              '' '' @ showNat (n div 10) @ ''.'' @ showNat (n mod 10) @ ''% vs last month'') \<and>
           \<bar>rat_of_nat n / 10 - \<bar>100 * (rat_of_int c - rat_of_int p) / rat_of_int p\<bar>\<bar>
             \<le> 1 / 20 + \<bar>100 * (rat_of_int c - rat_of_int p) / rat_of_int p\<bar> / 2 ^ 51"
    if "0 < p \<and> safeInteger c \<and> safeInteger p"
    using that deltaCopy_near[of p c] by blast
  have 5: "deltaCopy 500 0 = (Up, '' New vs last month'')"
    by (simp add: deltaCopy_def)
  have 6: "deltaCopy 1500 1000 = (Up, '' 50.0% vs last month'')"
    by code_simp
  have 7: "deltaCopy 500 1000 = (Down, '' 50.0% vs last month'')"
    by code_simp
  have 8: "deltaCopy 10300 8000 = (Up, '' 28.7% vs last month'')"
    by code_simp
  from 2 have i2: "0 < c \<longrightarrow> deltaCopy c 0 = (Up, '' New vs last month'')" ..
  from 3 have i3: "0 < p \<and> safeInteger c \<and> safeInteger p \<longrightarrow>
      deltaCopy c p =
        (if p \<le> c then Up else Down,
         '' '' @ toFixed1 \<bar>fmul (fdiv (fsub (rat_of_int c) (rat_of_int p)) (rat_of_int p)) 100\<bar>
           @ ''% vs last month'')" ..
  from 4 have i4: "0 < p \<and> safeInteger c \<and> safeInteger p \<longrightarrow>
      (\<exists>n. deltaCopy c p =
             (if p \<le> c then Up else Down,
              '' '' @ showNat (n div 10) @ ''.'' @ showNat (n mod 10) @ ''% vs last month'') \<and>
           \<bar>rat_of_nat n / 10 - \<bar>100 * (rat_of_int c - rat_of_int p) / rat_of_int p\<bar>\<bar>
             \<le> 1 / 20 + \<bar>100 * (rat_of_int c - rat_of_int p) / rat_of_int p\<bar> / 2 ^ 51)" ..
  show ?thesis
    by (intro conjI 1 i2 i3 i4 5 6 7 8)
qed

theorem deltaCopy_marker_and_magnitude_witness:
  "(0::int) < 500 \<and> deltaCopy 500 0 = (Up, '' New vs last month'') \<and>
   (0::int) < 80 \<and> safeInteger 29 \<and> safeInteger 80 \<and>
   toFixed1 \<bar>fmul (fdiv (fsub (rat_of_int 29) (rat_of_int 80)) (rat_of_int 80)) 100\<bar> = ''63.7'' \<and>
   deltaCopy 29 80 = (Down, '' 63.7% vs last month'') \<and>
   100 * (rat_of_int 29 - rat_of_int 80) / rat_of_int 80 = - (255 / 4)"
proof -
  have a: "(0::int) < 500" and b: "(0::int) < 80" by simp_all
  have s: "safeInteger 29" "safeInteger 80" by (simp_all add: safeInteger_def)
  have 1: "deltaCopy 500 0 = (Up, '' New vs last month'')"
    using deltaCopy_marker_and_magnitude[of 500, THEN conjunct2, THEN conjunct1] a by blast
  have t: "toFixed1 \<bar>fmul (fdiv (fsub (rat_of_int 29) (rat_of_int 80)) (rat_of_int 80)) 100\<bar> = ''63.7''"
    by code_simp
  have "deltaCopy 29 80 = (if (80::int) \<le> 29 then Up else Down,
         '' '' @ toFixed1 \<bar>fmul (fdiv (fsub (rat_of_int 29) (rat_of_int 80)) (rat_of_int 80)) 100\<bar>
           @ ''% vs last month'')"
    using deltaCopy_marker_and_magnitude[of 29 80, THEN conjunct2, THEN conjunct2, THEN conjunct1] b s
    by blast
  then have 2: "deltaCopy 29 80 = (Down, '' 63.7% vs last month'')"
    unfolding t by simp
  have 3: "100 * (rat_of_int 29 - rat_of_int 80) / rat_of_int 80 = - (255 / 4)"
    by simp
  show ?thesis by (intro conjI a b s 1 t 2 3)
qed

section \<open>CSV cells\<close>

lemma unquoteBody_esc:
  "unquoteBody (concat (map (\<lambda>ch. if ch = dquote then [dquote, dquote] else [ch]) v) @ [dquote]) = Some v"
  by (induction v) auto

lemma nth_exportCells:
  "exportCells r ! 3 = product r \<and> exportCells r ! 1 = dateCell r \<and> length (exportCells r) = 11"
  by (simp add: exportCells_def)

text \<open>
  Claim C7. Every cell of an exported row is a value wrapped in double quotes with the
  double quotes inside it doubled, and reading such a cell back (dropping the outer quotes
  and halving the doubled ones) gives the value: for every string, a product name with a
  double quote included, and for each of the eleven cells of a row. The date cell's value is the date wrapped once more as
  \<open>="date"\<close>, and that wrapped value is what reads back.
\<close>

theorem csv_escape_roundtrip:
  "csvUnquote (esc v) = Some v \<and>
   exportRow r = joinWith '','' (map esc (exportCells r)) \<and>
   map csvUnquote (map esc (exportCells r)) = map Some (exportCells r) \<and>
   exportCells r ! 3 = product r \<and>
   csvUnquote (map esc (exportCells r) ! 3) = Some (product r) \<and>
   (truthy (date r) \<longrightarrow>
      csvUnquote (map esc (exportCells r) ! 1) = Some (''='' @ [dquote] @ orEmpty (date r) @ [dquote])) \<and>
   esc (''6'' @ [dquote] @ '' tub'') = [dquote] @ ''6'' @ [dquote, dquote] @ '' tub'' @ [dquote]"
proof -
  have rt: "csvUnquote (esc v) = Some v" for v
    by (simp add: csvUnquote_def esc_def unquoteBody_esc)
  have l: "length (exportCells r) = 11" by (simp add: exportCells_def)
  have c3: "map esc (exportCells r) ! 3 = esc (product r)"
    by (simp add: exportCells_def)
  have c1: "map esc (exportCells r) ! 1 = esc (dateCell r)"
    by (simp add: exportCells_def)
  have d: "dateCell r = ''='' @ [dquote] @ orEmpty (date r) @ [dquote]" if "truthy (date r)"
    using that by (simp add: dateCell_def)
  have e: "esc (''6'' @ [dquote] @ '' tub'') = [dquote] @ ''6'' @ [dquote, dquote] @ '' tub'' @ [dquote]"
    by (simp add: esc_def dquote_def)
  have al: "map csvUnquote (map esc (exportCells r)) = map Some (exportCells r)"
    by (simp add: rt)
  have x: "exportCells r ! 3 = product r" by (simp add: exportCells_def)
  have r3: "csvUnquote (map esc (exportCells r) ! 3) = Some (product r)"
    unfolding c3 by (rule rt)
  have r1: "csvUnquote (map esc (exportCells r) ! 1) = Some (''='' @ [dquote] @ orEmpty (date r) @ [dquote])"
    if "truthy (date r)"
    unfolding c1 rt d[OF that] ..
  show ?thesis
    by (intro conjI impI rt al x r3 r1 e) (simp add: exportRow_def)
qed

theorem csv_escape_roundtrip_witness:
  "truthy (date (sampleSale ''s1'' (Some ''2024-03-05'') None 850)) \<and>
   csvUnquote (map esc (exportCells (sampleSale ''s1'' (Some ''2024-03-05'') None 850)) ! 1)
     = Some (''='' @ [dquote] @ ''2024-03-05'' @ [dquote]) \<and>
   map esc (exportCells (sampleSale ''s1'' (Some ''2024-03-05'') None 850)) ! 1
     = [dquote] @ ''='' @ [dquote, dquote] @ ''2024-03-05'' @ [dquote, dquote, dquote] \<and>
   csvUnquote ([dquote] @ ''6'' @ [dquote, dquote] @ '' tub'' @ [dquote]) = Some (''6'' @ [dquote] @ '' tub'')"
proof -
  let ?r = "sampleSale ''s1'' (Some ''2024-03-05'') None 850"
  have t: "truthy (date ?r)" by (simp add: truthy_def sampleSale_def)
  have o: "orEmpty (date ?r) = ''2024-03-05''" by (simp add: orEmpty_def sampleSale_def)
  have 1: "csvUnquote (map esc (exportCells ?r) ! 1) = Some (''='' @ [dquote] @ ''2024-03-05'' @ [dquote])"
    using csv_escape_roundtrip[of _ ?r, THEN conjunct2, THEN conjunct2, THEN conjunct2, THEN conjunct2,
        THEN conjunct2, THEN conjunct1] t
    unfolding o by blast
  have 2: "map esc (exportCells ?r) ! 1 = [dquote] @ ''='' @ [dquote, dquote] @ ''2024-03-05'' @ [dquote, dquote, dquote]"
    by (simp add: exportCells_def dateCell_def t o esc_def) (simp add: dquote_def)
  have 3: "csvUnquote ([dquote] @ ''6'' @ [dquote, dquote] @ '' tub'' @ [dquote]) = Some (''6'' @ [dquote] @ '' tub'')"
    using csv_escape_roundtrip[of "''6'' @ [dquote] @ '' tub''" ?r, THEN conjunct1]
    unfolding csv_escape_roundtrip[of "''''" ?r, THEN conjunct2, THEN conjunct2, THEN conjunct2,
        THEN conjunct2, THEN conjunct2, THEN conjunct2] .
  show ?thesis by (intro conjI t 1 2 3)
qed

section \<open>Filtered listing\<close>

lemma mset_insertBy: "mset (insertBy cmp x xs) = add_mset x (mset xs)"
  by (induction xs) auto

lemma mset_sortBy: "mset (sortBy cmp xs) = mset xs"
  unfolding sortBy_def by (induction xs) (auto simp: mset_insertBy)

lemma set_sortBy: "set (sortBy cmp xs) = set xs"
  using mset_sortBy[of cmp xs] by (metis set_mset_mset)

lemma sorted_insertBy:
  fixes key :: "'a \<Rightarrow> 'k::linorder"
  assumes "\<And>b. b \<in> set xs \<Longrightarrow> (cmp x b \<le> 0) = (key b \<le> key x)"
    and "sorted_wrt (\<lambda>a b. key b \<le> key a) xs"
  shows "sorted_wrt (\<lambda>a b. key b \<le> key a) (insertBy cmp x xs)"
  using assms
proof (induction xs)
  case Nil
  then show ?case by simp
next
  case (Cons y ys)
  show ?case
  proof (cases "cmp x y \<le> 0")
    case True
    then have "key y \<le> key x" using Cons.prems(1)[of y] by simp
    moreover have "\<forall>b \<in> set ys. key b \<le> key y" using Cons.prems(2) by simp
    ultimately have "\<forall>b \<in> set (y # ys). key b \<le> key x" by auto
    then show ?thesis using True Cons.prems(2) by simp
  next
    case False
    then have xy: "key x \<le> key y" using Cons.prems(1)[of y] by simp
    have s: "sorted_wrt (\<lambda>a b. key b \<le> key a) (insertBy cmp x ys)"
      using Cons.IH Cons.prems by simp
    have "\<forall>b \<in> set (insertBy cmp x ys). key b \<le> key y"
      using xy Cons.prems(2) by (simp flip: set_mset_mset add: mset_insertBy)
    then show ?thesis using False s by simp
  qed
qed

lemma sorted_sortBy:
  fixes key :: "'a \<Rightarrow> 'k::linorder"
  assumes "\<And>a b. a \<in> set xs \<Longrightarrow> b \<in> set xs \<Longrightarrow> (cmp a b \<le> 0) = (key b \<le> key a)"
  shows "sorted_wrt (\<lambda>a b. key b \<le> key a) (sortBy cmp xs)"
  using assms
proof (induction xs)
  case Nil
  then show ?case by (simp add: sortBy_def)
next
  case (Cons x xs)
  have t: "sortBy cmp (x # xs) = insertBy cmp x (sortBy cmp xs)"
    by (simp add: sortBy_def)
  show ?case unfolding t
  proof (rule sorted_insertBy)
    show "(cmp x b \<le> 0) = (key b \<le> key x)" if "b \<in> set (sortBy cmp xs)" for b
      using that Cons.prems[of x b] by (simp add: set_sortBy)
    show "sorted_wrt (\<lambda>a b. key b \<le> key a) (sortBy cmp xs)"
      using Cons.IH Cons.prems by simp
  qed
qed

section \<open>Pagination\<close>

lemma totalPages_div: "totalPages xs = (length xs + 4) div 5"
proof -
  have "rat_of_nat (length xs) / rat_of_nat 5 = rat_of_int (int (length xs)) / rat_of_int 5"
    by simp
  then have "\<lceil>rat_of_nat (length xs) / rat_of_nat 5\<rceil> = - (- int (length xs) div 5)"
    by (simp only: ceiling_divide_eq_div)
  also have "\<dots> = (int (length xs) + 4) div 5" by presburger
  finally have "nat \<lceil>rat_of_nat (length xs) / rat_of_nat 5\<rceil> = nat ((int (length xs) + 4) div 5)"
    by simp
  also have "\<dots> = (length xs + 4) div 5"
    by (simp add: nat_div_distrib nat_add_distrib)
  finally show ?thesis by (simp add: totalPages_def RECORDS_PER_PAGE_def)
qed

lemma page_take_drop:
  "paginatedRecent xs (int q + 1) = take 5 (drop (5 * q) xs)"
proof (cases "5 * q \<le> length xs")
  case True
  have "take (nat (min (int q * 5 + 5) (int (length xs)) - int q * 5)) (drop (5 * q) xs)
      = take 5 (drop (5 * q) xs)"
    by (cases "q * 5 + 5 \<le> length xs") (auto simp: min_def)
  moreover have "nat (int q * 5) = 5 * q" by (simp add: nat_mult_distrib)
  ultimately show ?thesis using True
    by (simp add: paginatedRecent_def slice_def RECORDS_PER_PAGE_def Let_def)
next
  case False
  then show ?thesis
    by (simp add: paginatedRecent_def slice_def RECORDS_PER_PAGE_def Let_def min_def)
qed

lemma concat_pages_take:
  "concat (map (\<lambda>q. take n (drop (n * q) xs)) [0..<m]) = take (n * m) xs"
proof (induction m)
  case 0
  show ?case by simp
next
  case (Suc m)
  have "take (n * m) xs @ take n (drop (n * m) xs) = take (n * m + n) xs"
    by (simp add: take_add)
  then show ?case using Suc by (simp add: add.commute)
qed

lemma pages_cover:
  "concat (map (\<lambda>q. paginatedRecent xs (int q + 1)) [0..<totalPages xs]) = xs"
proof -
  have "concat (map (\<lambda>q. paginatedRecent xs (int q + 1)) [0..<totalPages xs])
      = take (5 * totalPages xs) xs"
    by (simp only: page_take_drop concat_pages_take)
  moreover have "length xs \<le> 5 * totalPages xs"
    unfolding totalPages_div by presburger
  ultimately show ?thesis by simp
qed

lemma pages_of_twelve:
  assumes "length xs = 12"
  shows "map (\<lambda>p. length (paginatedRecent xs p)) [1, 2, 3] = [5, 5, 2] \<and> totalPages xs = 3"
  using assms page_take_drop[of xs 0] page_take_drop[of xs 1] page_take_drop[of xs 2]
  by (simp add: totalPages_div)

lemma reset_on_change:
  "(v \<noteq> selectedYear st \<longrightarrow>
      currentPage (setSelectedYear v st) = 1 \<and> selectedYear (setSelectedYear v st) = v) \<and>
   (v \<noteq> selectedMonth st \<longrightarrow>
      currentPage (setSelectedMonth v st) = 1 \<and> selectedMonth (setSelectedMonth v st) = v) \<and>
   (v \<noteq> selectedDay st \<longrightarrow>
      currentPage (setSelectedDay v st) = 1 \<and> selectedDay (setSelectedDay v st) = v)"
  by (simp add: setSelectedYear_def setSelectedMonth_def setSelectedDay_def resetEffect_def)

lemma codeUnitCompare_le: "(codeUnitCompare a b \<le> 0) = (a \<le> b)"
  by (auto simp: codeUnitCompare_def)

text \<open>
  Claim C6. The listing holds exactly the records whose extracted date is the cursor's
  full date, each as often as the dataset does. Where the platform's comparison orders the
  records' times as the character-by-character order of strings does (as it does on
  \<open>HH:MM:SS\<close> values), the listing is in descending order of time, a missing time
  counting as the empty string, so that no record with a time follows one without. Page
  \<open>q + 1\<close> is the five records after the first \<open>5 * q\<close>; the pages from 1 to
  \<open>totalPages\<close>, one after the other, are the listing; twelve records make three pages
  of 5, 5 and 2. Setting the year, the month or the day to a different value sets the
  current page to 1.
\<close>

theorem filtered_listing_sorted_paginated:
  "mset (filteredRecent lc c ds) = mset (filter (\<lambda>s. extractDateOnly s = selectedDateStr c) ds) \<and>
   ((\<forall>a \<in> set ds. \<forall>b \<in> set ds.
        (lc (orEmpty (time a)) (orEmpty (time b)) \<le> 0) = (orEmpty (time a) \<le> orEmpty (time b))) \<longrightarrow>
      sorted_wrt (\<lambda>a b. orEmpty (time b) \<le> orEmpty (time a)) (filteredRecent lc c ds) \<and>
      (\<forall>i j. i < j \<and> j < length (filteredRecent lc c ds) \<and>
             \<not> truthy (time (filteredRecent lc c ds ! i)) \<longrightarrow>
             \<not> truthy (time (filteredRecent lc c ds ! j)))) \<and>
   paginatedRecent xs (int q + 1) = take 5 (drop (5 * q) xs) \<and>
   concat (map (\<lambda>q. paginatedRecent xs (int q + 1)) [0..<totalPages xs]) = xs \<and>
   totalPages xs = (length xs + 4) div 5 \<and>
   (length xs = 12 \<longrightarrow>
      map (\<lambda>p. length (paginatedRecent xs p)) [1, 2, 3] = [5, 5, 2] \<and> totalPages xs = 3) \<and>
   (v \<noteq> selectedYear st \<longrightarrow>
      currentPage (setSelectedYear v st) = 1 \<and> selectedYear (setSelectedYear v st) = v) \<and>
   (v \<noteq> selectedMonth st \<longrightarrow>
      currentPage (setSelectedMonth v st) = 1 \<and> selectedMonth (setSelectedMonth v st) = v) \<and>
   (v \<noteq> selectedDay st \<longrightarrow>
      currentPage (setSelectedDay v st) = 1 \<and> selectedDay (setSelectedDay v st) = v)"
proof -
  let ?l = "filteredRecent lc c ds"
  have m: "mset ?l = mset (filter (\<lambda>s. extractDateOnly s = selectedDateStr c) ds)"
    by (simp add: filteredRecent_def mset_sortBy)
  have srt: "sorted_wrt (\<lambda>a b. orEmpty (time b) \<le> orEmpty (time a)) ?l \<and>
      (\<forall>i j. i < j \<and> j < length ?l \<and> \<not> truthy (time (?l ! i)) \<longrightarrow> \<not> truthy (time (?l ! j)))"
    if h: "\<forall>a \<in> set ds. \<forall>b \<in> set ds.
        (lc (orEmpty (time a)) (orEmpty (time b)) \<le> 0) = (orEmpty (time a) \<le> orEmpty (time b))"
  proof -
    have s: "sorted_wrt (\<lambda>a b. orEmpty (time b) \<le> orEmpty (time a)) ?l"
      unfolding filteredRecent_def Let_def
      by (rule sorted_sortBy) (use h in auto)
    have e: "truthy t = (orEmpty t \<noteq> [])" for t
      by (simp add: truthy_def orEmpty_def split: option.splits)
    have "\<not> truthy (time (?l ! j))" if "i < j" "j < length ?l" "\<not> truthy (time (?l ! i))" for i j
    proof -
      have "orEmpty (time (?l ! j)) \<le> orEmpty (time (?l ! i))"
        using s that(1,2) by (simp add: sorted_wrt_iff_nth_less)
      then show ?thesis using that(3) by (simp add: e)
    qed
    with s show ?thesis by blast
  qed
  show ?thesis
    using m srt page_take_drop[of xs q] pages_cover[of xs] totalPages_div[of xs]
      pages_of_twelve[of xs] reset_on_change[of v st]
    by blast
qed

theorem filtered_listing_sorted_paginated_witness:
  "(\<forall>a b. (codeUnitCompare a b \<le> 0) = (a \<le> b)) \<and>
   filteredRecent codeUnitCompare sampleCursor
     [sampleSale ''a'' (Some ''2024-03-05'') (Some ''09:00:00'') 100,
      sampleSale ''g'' (Some ''2024-03-06'') (Some ''23:00:00'') 5,
      sampleSale ''n'' (Some ''2024-03-05'') None 7,
      sampleSale ''b'' (Some ''2024-03-05T10:22:00Z'') (Some ''10:22:00'') 50]
     = [sampleSale ''b'' (Some ''2024-03-05T10:22:00Z'') (Some ''10:22:00'') 50,
        sampleSale ''a'' (Some ''2024-03-05'') (Some ''09:00:00'') 100,
        sampleSale ''n'' (Some ''2024-03-05'') None 7] \<and>
   sorted_wrt (\<lambda>a b. orEmpty (time b) \<le> orEmpty (time a))
     (filteredRecent codeUnitCompare sampleCursor
       [sampleSale ''a'' (Some ''2024-03-05'') (Some ''09:00:00'') 100,
        sampleSale ''g'' (Some ''2024-03-06'') (Some ''23:00:00'') 5,
        sampleSale ''n'' (Some ''2024-03-05'') None 7,
        sampleSale ''b'' (Some ''2024-03-05T10:22:00Z'') (Some ''10:22:00'') 50]) \<and>
   length (replicate 12 (sampleSale ''a'' (Some ''2024-03-05'') None 1)) = 12 \<and>
   map (\<lambda>p. length (paginatedRecent (replicate 12 (sampleSale ''a'' (Some ''2024-03-05'') None 1)) p))
     [1, 2, 3] = [5, 5, 2] \<and>
   ''2025'' \<noteq> selectedYear \<lparr>selectedYear = ''2024'', selectedMonth = ''03'', selectedDay = ''05'', currentPage = 3\<rparr> \<and>
   currentPage (setSelectedYear ''2025''
       \<lparr>selectedYear = ''2024'', selectedMonth = ''03'', selectedDay = ''05'', currentPage = 3\<rparr>) = 1 \<and>
   currentPage (setSelectedMonth ''04''
       \<lparr>selectedYear = ''2024'', selectedMonth = ''03'', selectedDay = ''05'', currentPage = 3\<rparr>) = 1 \<and>
   currentPage (setSelectedDay ''06''
       \<lparr>selectedYear = ''2024'', selectedMonth = ''03'', selectedDay = ''05'', currentPage = 3\<rparr>) = 1"
proof -
  let ?a = "sampleSale ''a'' (Some ''2024-03-05'') (Some ''09:00:00'') 100"
  let ?g = "sampleSale ''g'' (Some ''2024-03-06'') (Some ''23:00:00'') 5"
  let ?n = "sampleSale ''n'' (Some ''2024-03-05'') None 7"
  let ?b = "sampleSale ''b'' (Some ''2024-03-05T10:22:00Z'') (Some ''10:22:00'') 50"
  let ?ds = "[?a, ?g, ?n, ?b]"
  let ?xs = "replicate 12 (sampleSale ''a'' (Some ''2024-03-05'') None 1)"
  let ?st = "\<lparr>selectedYear = ''2024'', selectedMonth = ''03'', selectedDay = ''05'', currentPage = 3\<rparr>"
  note th = filtered_listing_sorted_paginated[of codeUnitCompare sampleCursor ?ds ?xs 0 "''2025''" ?st]
  have h: "\<forall>a b. (codeUnitCompare a b \<le> 0) = (a \<le> b)"
    by (simp add: codeUnitCompare_le)
  have sd: "selectedDateStr sampleCursor = ''2024-03-05''"
    by (simp add: selectedDateStr_def sampleCursor_def)
  have e: "extractDateOnly ?a = ''2024-03-05''" "extractDateOnly ?g = ''2024-03-06''"
    "extractDateOnly ?n = ''2024-03-05''" "extractDateOnly ?b = ''2024-03-05''"
    by (simp_all add: extractDateOnly_def sampleSale_def orEmpty_def isDigit_def)
  have t: "orEmpty (time ?a) = ''09:00:00''" "orEmpty (time ?n) = []" "orEmpty (time ?b) = ''10:22:00''"
    by (simp_all add: sampleSale_def orEmpty_def)
  have run: "filteredRecent codeUnitCompare sampleCursor ?ds = [?b, ?a, ?n]"
    by (simp add: filteredRecent_def sd e sortBy_def t codeUnitCompare_def)
  have s: "sorted_wrt (\<lambda>a b. orEmpty (time b) \<le> orEmpty (time a))
      (filteredRecent codeUnitCompare sampleCursor ?ds)"
    using th[THEN conjunct2, THEN conjunct1] h by blast
  have l: "length ?xs = 12" by simp
  have p: "map (\<lambda>p. length (paginatedRecent ?xs p)) [1, 2, 3] = [5, 5, 2]"
    using th[THEN conjunct2, THEN conjunct2, THEN conjunct2, THEN conjunct2, THEN conjunct2,
        THEN conjunct1] l by blast
  have ne: "''2025'' \<noteq> selectedYear ?st" by simp
  have r: "currentPage (setSelectedYear ''2025'' ?st) = 1"
    using th[THEN conjunct2, THEN conjunct2, THEN conjunct2, THEN conjunct2, THEN conjunct2,
        THEN conjunct2, THEN conjunct1] ne by blast
  have rm: "currentPage (setSelectedMonth ''04'' ?st) = 1"
    using filtered_listing_sorted_paginated[of codeUnitCompare sampleCursor ?ds ?xs 0 "''04''" ?st,
        THEN conjunct2, THEN conjunct2, THEN conjunct2, THEN conjunct2, THEN conjunct2,
        THEN conjunct2, THEN conjunct2, THEN conjunct1]
    by simp
  have rd: "currentPage (setSelectedDay ''06'' ?st) = 1"
    using filtered_listing_sorted_paginated[of codeUnitCompare sampleCursor ?ds ?xs 0 "''06''" ?st,
        THEN conjunct2, THEN conjunct2, THEN conjunct2, THEN conjunct2, THEN conjunct2,
        THEN conjunct2, THEN conjunct2, THEN conjunct2]
    by simp
  show ?thesis by (intro conjI h run s l p ne r rm rd)
qed

section \<open>Decimal rendering\<close>

lemma showNat_1: "n < 10 \<Longrightarrow> showNat n = [digitChar n]"
  by (simp add: showNat.simps)

lemma showNat_2: "10 \<le> n \<Longrightarrow> n < 100 \<Longrightarrow> showNat n = [digitChar (n div 10), digitChar n]"
  by (subst showNat.simps) (simp add: showNat_1 digitChar_def)

lemma showNat_3:
  "100 \<le> n \<Longrightarrow> n < 1000 \<Longrightarrow> showNat n = [digitChar (n div 100), digitChar (n div 10), digitChar n]"
  by (subst showNat.simps) (simp add: showNat_2 digitChar_def div_mult2_eq[symmetric])

lemma showNat_4:
  "1000 \<le> n \<Longrightarrow> n < 10000 \<Longrightarrow>
     showNat n = [digitChar (n div 1000), digitChar (n div 100), digitChar (n div 10), digitChar n]"
  by (subst showNat.simps) (simp add: showNat_3 digitChar_def div_mult2_eq[symmetric])

lemma drop2_showInt:
  assumes "1000 \<le> y" "y \<le> 9999"
  shows "drop 2 (showInt y) = [digitChar (nat y div 10), digitChar (nat y)]"
  using assms by (simp add: showInt_def showNat_4)

section \<open>Month names\<close>

lemma month_cases:
  assumes "m < (12::nat)"
  obtains "m = 0" | "m = 1" | "m = 2" | "m = 3" | "m = 4" | "m = 5" | "m = 6" | "m = 7"
    | "m = 8" | "m = 9" | "m = 10" | "m = 11"
proof -
  have "m = 0 \<or> m = 1 \<or> m = 2 \<or> m = 3 \<or> m = 4 \<or> m = 5 \<or> m = 6 \<or> m = 7 \<or> m = 8 \<or> m = 9
      \<or> m = 10 \<or> m = 11"
    using assms by arith
  then show thesis using that by blast
qed

lemma month_abbrev:
  assumes "m < 12"
  shows "take 3 (getMonthName (padStart2 (showNat (m + 1)))) = monthAbbrevs ! m"
  using assms
  by (cases m rule: month_cases)
     (simp_all add: showNat.simps digitChar_def padStart2_def getMonthName_def monthOptions_def
        monthAbbrevs_def)

lemma month_abbrev_Suc:
  "m < 12 \<Longrightarrow> take 3 (getMonthName (padStart2 (showNat (Suc m)))) = monthAbbrevs ! m"
  using month_abbrev[of m] by simp

section \<open>Calendar arithmetic\<close>

lemma newDateFirst_plain:
  "99 < y \<Longrightarrow> newDateFirst y m = \<lparr>getFullYear = y + m div 12, getMonth = nat (m mod 12), getDate = 1\<rparr>"
  by (simp add: newDateFirst_def)

lemma series_date:
  assumes "getMonth now < 12" "1000 < getFullYear now"
  defines "refDate \<equiv> newDateFirst (getFullYear now) (int (getMonth now))"
  defines "start \<equiv> newDateFirst (getFullYear refDate) (int (getMonth refDate) - (int monthsToShow - 1))"
  shows "newDateFirst (getFullYear start) (int (getMonth start) + int i) =
     \<lparr>getFullYear = yearOfCount (monthCountOf now - 5 + int i),
      getMonth = monthOfCount (monthCountOf now - 5 + int i), getDate = 1\<rparr>"
proof -
  define Y where "Y = getFullYear now"
  define M where "M = int (getMonth now)"
  have M: "0 \<le> M" "M < 12" using assms(1) by (simp_all add: M_def)
  have Y: "1000 < Y" using assms(2) by (simp add: Y_def)
  have r: "refDate = \<lparr>getFullYear = Y, getMonth = nat M, getDate = 1\<rparr>"
    using M Y by (simp add: refDate_def newDateFirst_plain Y_def[symmetric] M_def[symmetric])
  have s: "start = \<lparr>getFullYear = Y + (M - 5) div 12, getMonth = nat ((M - 5) mod 12), getDate = 1\<rparr>"
    using M Y by (simp add: start_def r newDateFirst_plain monthsToShow_def)
  define q where "q = (M - 5) div 12"
  define r where "r = (M - 5) mod 12"
  have qr: "12 * q + r = M - 5"
    unfolding q_def r_def by (rule mult_div_mod_eq)
  have "- 1 \<le> q" unfolding q_def using M by linarith
  then have sy: "99 < Y + q" using Y by linarith
  have d: "12 * Y + M - 5 + int i = (r + int i) + (Y + q) * 12"
    using qr by (simp add: algebra_simps)
  have a: "Y + q + (r + int i) div 12 = (12 * Y + M - 5 + int i) div 12"
    unfolding d by (simp only: div_mult_self1[of 12])
  have b: "(r + int i) mod 12 = (12 * Y + M - 5 + int i) mod 12"
    unfolding d by (simp only: mod_mult_self1)
  have s': "start = \<lparr>getFullYear = Y + q, getMonth = nat r, getDate = 1\<rparr>"
    unfolding s q_def r_def ..
  have rn: "0 \<le> r" unfolding r_def by simp
  show ?thesis
    using sy a b rn
    by (simp add: s' newDateFirst_plain yearOfCount_def monthOfCount_def monthCountOf_def
        Y_def[symmetric] M_def[symmetric])
qed

section \<open>Bucket totals\<close>

lemma totals_fold:
  "getOrZero (foldl totalsStep m ds k) =
     getOrZero (m k) + sum_list (map total (filter (\<lambda>s. recordKey s = Some k) ds))"
proof (induction ds arbitrary: m)
  case Nil
  show ?case by simp
next
  case (Cons s ds)
  have "getOrZero (totalsStep m s k) = getOrZero (m k) + (if recordKey s = Some k then total s else 0)"
    by (auto simp: totalsStep_def getOrZero_def Let_def split: option.splits)
  then show ?case by (simp add: Cons.IH)
qed


section \<open>The trend series\<close>

lemma getOrZero_None: "getOrZero None = 0"
  by (simp add: getOrZero_def)

lemma series_nth:
  assumes "getMonth now < 12" "1000 < getFullYear now" "i < 6"
  shows "monthlySeries now ds ! i =
     \<lparr>key = showInt (yearOfCount (monthCountOf now - 5 + int i)) @ ''-'' @
             padStart2 (showNat (monthOfCount (monthCountOf now - 5 + int i) + 1)),
      label = take 3 (getMonthName (padStart2 (showNat (monthOfCount (monthCountOf now - 5 + int i) + 1))))
              @ '' '' @ drop 2 (showInt (yearOfCount (monthCountOf now - 5 + int i))),
      value_pt = sum_list (map total (filter (\<lambda>s. recordKey s =
             Some (showInt (yearOfCount (monthCountOf now - 5 + int i)) @ ''-'' @
                   padStart2 (showNat (monthOfCount (monthCountOf now - 5 + int i) + 1)))) ds)),
      isCurrent = (i = 5)\<rparr>"
proof -
  define T where "T = foldl totalsStep Map.empty ds"
  define start where "start =
    newDateFirst (getFullYear (newDateFirst (getFullYear now) (int (getMonth now))))
      (int (getMonth (newDateFirst (getFullYear now) (int (getMonth now)))) - (int monthsToShow - 1))"
  have cur: "newDateFirst (getFullYear start) (int (getMonth start) + int i) =
     \<lparr>getFullYear = yearOfCount (monthCountOf now - 5 + int i),
      getMonth = monthOfCount (monthCountOf now - 5 + int i), getDate = 1\<rparr>"
    unfolding start_def by (rule series_date[OF assms(1,2)])
  have v: "getOrZero (T k) = sum_list (map total (filter (\<lambda>s. recordKey s = Some k) ds))" for k
    unfolding T_def totals_fold by (simp add: getOrZero_None)
  have "monthlySeries now ds ! i = seriesEntry T start i"
    using assms(3) by (simp add: monthlySeries_def Let_def monthsToShow_def T_def start_def)
  also have "\<dots> = \<lparr>key = showInt (yearOfCount (monthCountOf now - 5 + int i)) @ ''-'' @
             padStart2 (showNat (monthOfCount (monthCountOf now - 5 + int i) + 1)),
      label = take 3 (getMonthName (padStart2 (showNat (monthOfCount (monthCountOf now - 5 + int i) + 1))))
              @ '' '' @ drop 2 (showInt (yearOfCount (monthCountOf now - 5 + int i))),
      value_pt = sum_list (map total (filter (\<lambda>s. recordKey s =
             Some (showInt (yearOfCount (monthCountOf now - 5 + int i)) @ ''-'' @
                   padStart2 (showNat (monthOfCount (monthCountOf now - 5 + int i) + 1)))) ds)),
      isCurrent = (i = 5)\<rparr>"
    unfolding seriesEntry_def cur Let_def v by (simp add: monthsToShow_def)
  finally show ?thesis .
qed

lemma count_year_range:
  assumes "getMonth now < 12" "1000 < getFullYear now" "getFullYear now \<le> 9999" "i < 6"
  shows "1000 \<le> yearOfCount (monthCountOf now - 5 + int i) \<and>
         yearOfCount (monthCountOf now - 5 + int i) \<le> 9999 \<and>
         monthOfCount (monthCountOf now - 5 + int i) < 12"
proof -
  define Y where "Y = getFullYear now"
  define M where "M = int (getMonth now)"
  have b: "0 \<le> M" "M < 12" "1000 < Y" "Y \<le> 9999" "int i < 6" "0 \<le> int i"
    using assms by (simp_all add: M_def Y_def)
  have lo: "12 * 1000 \<le> 12 * Y + M - 5 + int i" and hi: "12 * Y + M - 5 + int i < 12 * 10000"
    using b by linarith+
  have "1000 \<le> (12 * Y + M - 5 + int i) div 12"
    using lo by (simp only: zdiv_mono1[of "12 * 1000" _ 12, simplified])
  moreover have "(12 * Y + M - 5 + int i) div 12 < 10000"
    using hi by (simp add: div_less_iff_less_mult[of 12])
  moreover have "nat ((12 * Y + M - 5 + int i) mod 12) < 12"
    by simp
  ultimately show ?thesis
    by (simp add: yearOfCount_def monthOfCount_def monthCountOf_def Y_def M_def)
qed

lemma count_now:
  assumes "getMonth now < 12"
  shows "yearOfCount (monthCountOf now) = getFullYear now \<and> monthOfCount (monthCountOf now) = getMonth now"
  using assms by (simp add: yearOfCount_def monthOfCount_def monthCountOf_def)

text \<open>
  Claim C2. The series has six entries whatever the dataset; the function takes no cursor.
  With the wall clock in a year of four digits (from 1001 to 9999), entry \<open>i\<close> is the
  month five months before the current one plus \<open>i\<close>, so the entries are consecutive
  months and the last one is the current month: its key is the year, a dash and the month
  number in two digits, its label the month's three-letter name, a space and the last two
  digits of the year, and its value the sum of the totals of the records with that key,
  which is 0 when no record has it.
\<close>

theorem monthlySeries_six_months:
  "length (monthlySeries now ds) = 6 \<and>
   (getMonth now < 12 \<and> 1000 < getFullYear now \<and> getFullYear now \<le> 9999 \<longrightarrow>
     (\<forall>i<6.
        key (monthlySeries now ds ! i) =
          showInt (yearOfCount (monthCountOf now - 5 + int i)) @ ''-'' @
          padStart2 (showNat (monthOfCount (monthCountOf now - 5 + int i) + 1)) \<and>
        label (monthlySeries now ds ! i) =
          monthAbbrevs ! monthOfCount (monthCountOf now - 5 + int i) @ '' '' @
          [digitChar (nat (yearOfCount (monthCountOf now - 5 + int i)) div 10),
           digitChar (nat (yearOfCount (monthCountOf now - 5 + int i)))] \<and>
        value_pt (monthlySeries now ds ! i) =
          sum_list (map total
            (filter (\<lambda>s. recordKey s = Some (key (monthlySeries now ds ! i))) ds)) \<and>
        ((\<forall>s \<in> set ds. recordKey s \<noteq> Some (key (monthlySeries now ds ! i))) \<longrightarrow>
           value_pt (monthlySeries now ds ! i) = 0) \<and>
        isCurrent (monthlySeries now ds ! i) = (i = 5)) \<and>
     yearOfCount (monthCountOf now) = getFullYear now \<and>
     monthOfCount (monthCountOf now) = getMonth now \<and>
     key (monthlySeries now ds ! 5) =
       showInt (getFullYear now) @ ''-'' @ padStart2 (showNat (getMonth now + 1)))"
proof -
  have len: "length (monthlySeries now ds) = 6"
    by (simp add: monthlySeries_def Let_def monthsToShow_def)
  have main: "(\<forall>i<6.
        key (monthlySeries now ds ! i) =
          showInt (yearOfCount (monthCountOf now - 5 + int i)) @ ''-'' @
          padStart2 (showNat (monthOfCount (monthCountOf now - 5 + int i) + 1)) \<and>
        label (monthlySeries now ds ! i) =
          monthAbbrevs ! monthOfCount (monthCountOf now - 5 + int i) @ '' '' @
          [digitChar (nat (yearOfCount (monthCountOf now - 5 + int i)) div 10),
           digitChar (nat (yearOfCount (monthCountOf now - 5 + int i)))] \<and>
        value_pt (monthlySeries now ds ! i) =
          sum_list (map total
            (filter (\<lambda>s. recordKey s = Some (key (monthlySeries now ds ! i))) ds)) \<and>
        ((\<forall>s \<in> set ds. recordKey s \<noteq> Some (key (monthlySeries now ds ! i))) \<longrightarrow>
           value_pt (monthlySeries now ds ! i) = 0) \<and>
        isCurrent (monthlySeries now ds ! i) = (i = 5)) \<and>
     yearOfCount (monthCountOf now) = getFullYear now \<and>
     monthOfCount (monthCountOf now) = getMonth now \<and>
     key (monthlySeries now ds ! 5) =
       showInt (getFullYear now) @ ''-'' @ padStart2 (showNat (getMonth now + 1))"
    if h: "getMonth now < 12" "1000 < getFullYear now" "getFullYear now \<le> 9999"
  proof -
    have ent: "key (monthlySeries now ds ! i) =
          showInt (yearOfCount (monthCountOf now - 5 + int i)) @ ''-'' @
          padStart2 (showNat (monthOfCount (monthCountOf now - 5 + int i) + 1)) \<and>
        label (monthlySeries now ds ! i) =
          monthAbbrevs ! monthOfCount (monthCountOf now - 5 + int i) @ '' '' @
          [digitChar (nat (yearOfCount (monthCountOf now - 5 + int i)) div 10),
           digitChar (nat (yearOfCount (monthCountOf now - 5 + int i)))] \<and>
        value_pt (monthlySeries now ds ! i) =
          sum_list (map total
            (filter (\<lambda>s. recordKey s = Some (key (monthlySeries now ds ! i))) ds)) \<and>
        ((\<forall>s \<in> set ds. recordKey s \<noteq> Some (key (monthlySeries now ds ! i))) \<longrightarrow>
           value_pt (monthlySeries now ds ! i) = 0) \<and>
        isCurrent (monthlySeries now ds ! i) = (i = 5)"
      if i: "i < 6" for i
    proof -
      note n = series_nth[OF h(1,2) i, of ds]
      note r = count_year_range[OF h i]
      have k: "key (monthlySeries now ds ! i) =
          showInt (yearOfCount (monthCountOf now - 5 + int i)) @ ''-'' @
          padStart2 (showNat (monthOfCount (monthCountOf now - 5 + int i) + 1))"
        unfolding n by simp
      have l: "label (monthlySeries now ds ! i) =
          monthAbbrevs ! monthOfCount (monthCountOf now - 5 + int i) @ '' '' @
          [digitChar (nat (yearOfCount (monthCountOf now - 5 + int i)) div 10),
           digitChar (nat (yearOfCount (monthCountOf now - 5 + int i)))]"
        unfolding n using r by (simp add: month_abbrev_Suc drop2_showInt)
      have v: "value_pt (monthlySeries now ds ! i) =
          sum_list (map total
            (filter (\<lambda>s. recordKey s = Some (key (monthlySeries now ds ! i))) ds))"
        unfolding k unfolding n by simp
      have z: "value_pt (monthlySeries now ds ! i) = 0"
        if "\<forall>s \<in> set ds. recordKey s \<noteq> Some (key (monthlySeries now ds ! i))"
      proof -
        have "filter (\<lambda>s. recordKey s = Some (key (monthlySeries now ds ! i))) ds = []"
          using that by (simp add: filter_empty_conv)
        then show ?thesis by (simp only: v) simp
      qed
      have c: "isCurrent (monthlySeries now ds ! i) = (i = 5)"
        unfolding n by simp
      show ?thesis using k l v z c by blast
    qed
    have last: "key (monthlySeries now ds ! 5) =
       showInt (getFullYear now) @ ''-'' @ padStart2 (showNat (getMonth now + 1))"
      using ent[of 5] count_now[OF h(1)] by simp
    show ?thesis using ent last count_now[OF h(1)] by blast
  qed
  show ?thesis using len main by blast
qed

theorem monthlySeries_six_months_witness:
  "getMonth sampleNow < 12 \<and> 1000 < getFullYear sampleNow \<and> getFullYear sampleNow \<le> 9999 \<and>
   length (monthlySeries sampleNow
     [sampleSale ''a'' (Some ''2024-03-05'') None 100,
      sampleSale ''b'' (Some ''2023-12-05'') None 40,
      sampleSale ''c'' (Some ''2023-12-09T08:00:00Z'') None 2]) = 6 \<and>
   map key (monthlySeries sampleNow
     [sampleSale ''a'' (Some ''2024-03-05'') None 100,
      sampleSale ''b'' (Some ''2023-12-05'') None 40,
      sampleSale ''c'' (Some ''2023-12-09T08:00:00Z'') None 2])
     = [''2023-10'', ''2023-11'', ''2023-12'', ''2024-01'', ''2024-02'', ''2024-03''] \<and>
   map label (monthlySeries sampleNow
     [sampleSale ''a'' (Some ''2024-03-05'') None 100,
      sampleSale ''b'' (Some ''2023-12-05'') None 40,
      sampleSale ''c'' (Some ''2023-12-09T08:00:00Z'') None 2])
     = [''Oct 23'', ''Nov 23'', ''Dec 23'', ''Jan 24'', ''Feb 24'', ''Mar 24''] \<and>
   map value_pt (monthlySeries sampleNow
     [sampleSale ''a'' (Some ''2024-03-05'') None 100,
      sampleSale ''b'' (Some ''2023-12-05'') None 40,
      sampleSale ''c'' (Some ''2023-12-09T08:00:00Z'') None 2])
     = [0, 0, 42, 0, 0, 100] \<and>
   key (monthlySeries sampleNow
     [sampleSale ''a'' (Some ''2024-03-05'') None 100,
      sampleSale ''b'' (Some ''2023-12-05'') None 40,
      sampleSale ''c'' (Some ''2023-12-09T08:00:00Z'') None 2] ! 5)
     = showInt (getFullYear sampleNow) @ ''-'' @ padStart2 (showNat (getMonth sampleNow + 1))"
proof -
  let ?ds = "[sampleSale ''a'' (Some ''2024-03-05'') None 100,
      sampleSale ''b'' (Some ''2023-12-05'') None 40,
      sampleSale ''c'' (Some ''2023-12-09T08:00:00Z'') None 2]"
  have h: "getMonth sampleNow < 12" "1000 < getFullYear sampleNow" "getFullYear sampleNow \<le> 9999"
    by (simp_all add: sampleNow_def)
  note th = monthlySeries_six_months[of sampleNow ?ds]
  have len: "length (monthlySeries sampleNow ?ds) = 6"
    by (rule th[THEN conjunct1])
  have last: "key (monthlySeries sampleNow ?ds ! 5)
      = showInt (getFullYear sampleNow) @ ''-'' @ padStart2 (showNat (getMonth sampleNow + 1))"
    using th[THEN conjunct2] h by blast
  have e: "extractDateOnly (sampleSale ''a'' (Some ''2024-03-05'') None 100) = ''2024-03-05''"
    "extractDateOnly (sampleSale ''b'' (Some ''2023-12-05'') None 40) = ''2023-12-05''"
    "extractDateOnly (sampleSale ''c'' (Some ''2023-12-09T08:00:00Z'') None 2) = ''2023-12-09''"
    by (simp_all add: extractDateOnly_def sampleSale_def orEmpty_def isDigit_def)
  have rk: "recordKey (sampleSale ''a'' (Some ''2024-03-05'') None 100) = Some ''2024-03''"
    "recordKey (sampleSale ''b'' (Some ''2023-12-05'') None 40) = Some ''2023-12''"
    "recordKey (sampleSale ''c'' (Some ''2023-12-09T08:00:00Z'') None 2) = Some ''2023-12''"
    by (simp_all add: recordKey_def e nthOpt_def truthy_def orEmpty_def)
  have t: "total (sampleSale ''a'' (Some ''2024-03-05'') None 100) = 100"
    "total (sampleSale ''b'' (Some ''2023-12-05'') None 40) = 40"
    "total (sampleSale ''c'' (Some ''2023-12-09T08:00:00Z'') None 2) = 2"
    by (simp_all add: sampleSale_def)
  define T where "T = foldl totalsStep Map.empty ?ds"
  have g: "getOrZero (T k) = sum_list (map total (filter (\<lambda>s. recordKey s = Some k) ?ds))" for k
    unfolding T_def totals_fold by (simp add: getOrZero_None)
  have u: "[0..<6] = [0, 1, 2, 3, 4, 5::nat]"
    by (simp add: upt_conv_Cons)
  have "monthlySeries sampleNow ?ds =
      map (seriesEntry T \<lparr>getFullYear = 2023, getMonth = 9, getDate = 1\<rparr>) [0, 1, 2, 3, 4, 5]"
    unfolding monthlySeries_def Let_def T_def[symmetric] monthsToShow_def u
    by (simp add: newDateFirst_def sampleNow_def)
  also have "\<dots> =
      [\<lparr>key = ''2023-10'', label = ''Oct 23'', value_pt = 0, isCurrent = False\<rparr>,
       \<lparr>key = ''2023-11'', label = ''Nov 23'', value_pt = 0, isCurrent = False\<rparr>,
       \<lparr>key = ''2023-12'', label = ''Dec 23'', value_pt = 42, isCurrent = False\<rparr>,
       \<lparr>key = ''2024-01'', label = ''Jan 24'', value_pt = 0, isCurrent = False\<rparr>,
       \<lparr>key = ''2024-02'', label = ''Feb 24'', value_pt = 0, isCurrent = False\<rparr>,
       \<lparr>key = ''2024-03'', label = ''Mar 24'', value_pt = 100, isCurrent = True\<rparr>]"
    by (simp add: seriesEntry_def Let_def monthsToShow_def newDateFirst_def)
       (simp add: g showInt_def showNat_1 showNat_2 showNat_4 digitChar_def padStart2_def
          getMonthName_def monthOptions_def rk t)
  finally have run: "monthlySeries sampleNow ?ds =
      [\<lparr>key = ''2023-10'', label = ''Oct 23'', value_pt = 0, isCurrent = False\<rparr>,
       \<lparr>key = ''2023-11'', label = ''Nov 23'', value_pt = 0, isCurrent = False\<rparr>,
       \<lparr>key = ''2023-12'', label = ''Dec 23'', value_pt = 42, isCurrent = False\<rparr>,
       \<lparr>key = ''2024-01'', label = ''Jan 24'', value_pt = 0, isCurrent = False\<rparr>,
       \<lparr>key = ''2024-02'', label = ''Feb 24'', value_pt = 0, isCurrent = False\<rparr>,
       \<lparr>key = ''2024-03'', label = ''Mar 24'', value_pt = 100, isCurrent = True\<rparr>]" .
  have k: "map key (monthlySeries sampleNow ?ds)
      = [''2023-10'', ''2023-11'', ''2023-12'', ''2024-01'', ''2024-02'', ''2024-03'']"
    and l: "map label (monthlySeries sampleNow ?ds)
      = [''Oct 23'', ''Nov 23'', ''Dec 23'', ''Jan 24'', ''Feb 24'', ''Mar 24'']"
    and v: "map value_pt (monthlySeries sampleNow ?ds) = [0, 0, 42, 0, 0, 100]"
    unfolding run by simp_all
  show ?thesis by (intro conjI h len k l v last)
qed

end
